theory Spec2Isabelle
  imports Main
begin

section \<open>Data model\<close>

text \<open>
  The session and token engine of the habit tracker backend (\<^verbatim>\<open>app/auth/auth.py\<close>,
  \<^verbatim>\<open>app/auth/router.py\<close>, \<^verbatim>\<open>app/auth/dependencies.py\<close>) over the tables declared in
  \<^verbatim>\<open>app/auth/models.py\<close> and \<^verbatim>\<open>app/dao/database.py\<close>.

  A point in time is an integer number of microseconds since the epoch, the resolution of
  Python's \<^verbatim>\<open>datetime\<close>. Every operation receives the reading \<open>now\<close> of the clock it would
  take with \<^verbatim>\<open>datetime.now(UTC)\<close>; the database function \<^verbatim>\<open>now()\<close> behind \<^verbatim>\<open>created_at\<close> and
  \<^verbatim>\<open>updated_at\<close> is given the same reading, and one request is taken at one instant.
\<close>

type_synonym timestamp = int

definition timedelta_days :: "int \<Rightarrow> timestamp" where
  "timedelta_days d = d * 86400000000"

definition timedelta_minutes :: "int \<Rightarrow> timestamp" where
  "timedelta_minutes m = m * 60000000"

text \<open>
  \<^verbatim>\<open>class Base\<close>: the columns every table has. \<^verbatim>\<open>id\<close> is the autoincremented primary key
  (named \<open>id_col\<close> here, \<open>id\<close> being the identity function of HOL); \<^verbatim>\<open>updated_at\<close> carries
  \<^verbatim>\<open>onupdate=func.now()\<close>, so every UPDATE statement stamps the rows it matches.
\<close>

record Base =
  id_col :: int
  created_at :: timestamp
  updated_at :: timestamp

record User = Base +
  username :: string
  first_name :: "string option"
  email :: string
  password :: string
  role_id :: int
  public_id :: string

record RefreshToken = Base +
  user_id :: int
  token :: string
  expires_at :: timestamp
  is_revoked :: bool
  user_agent :: "string option"
  ip_address :: "string option"

text \<open>
  The database: the two tables in storage order and the sequence behind
  \<^verbatim>\<open>refreshtokens.id\<close>.
\<close>

record db =
  refreshtokens :: "RefreshToken list"
  users :: "User list"
  refreshtokens_id_seq :: int

text \<open>The part of \<^verbatim>\<open>Settings\<close> the engine reads.\<close>

record Settings =
  ACCESS_TOKEN_EXPIRE_MINUTES :: int
  REFRESH_TOKEN_EXPIRE_DAYS :: int

text \<open>
  What the engine reads of a \<^verbatim>\<open>Request\<close>: its headers, under their names in lower case as
  the framework looks them up, and \<^verbatim>\<open>request.client.host\<close> (\<open>None\<close> when
  \<^verbatim>\<open>request.client\<close> is \<^verbatim>\<open>None\<close>).
\<close>

record Request =
  headers :: "(string \<times> string) list"
  client_host :: "string option"

text \<open>
  The exceptions of \<^verbatim>\<open>app/exceptions.py\<close>, the one \<^verbatim>\<open>HTTPException\<close> raised inline by
  \<^verbatim>\<open>get_current_user\<close>, and the uncategorised Python and database errors the code can end in.
\<close>

datatype error =
    IncorrectEmailOrPasswordException
  | TokenExpiredException
  | TokenNoFound
  | NoJwtException
  | NoUserIdException
  | ForbiddenException
  | NoRefreshTokenException
  | NoValidRefreshTokenException
  | NoSessionException
  | MaxSessionsException
  | UserNotFound
  | AttributeError
  | TypeError
  | ValueError
  | IntegrityError
  | MultipleResultsFound

fun status_code :: "error \<Rightarrow> nat" where
  "status_code IncorrectEmailOrPasswordException = 401"
| "status_code TokenExpiredException = 401"
| "status_code TokenNoFound = 401"
| "status_code NoJwtException = 401"
| "status_code NoUserIdException = 401"
| "status_code ForbiddenException = 403"
| "status_code NoRefreshTokenException = 401"
| "status_code NoValidRefreshTokenException = 401"
| "status_code NoSessionException = 404"
| "status_code MaxSessionsException = 400"
| "status_code UserNotFound = 401"
| "status_code AttributeError = 500"
| "status_code TypeError = 500"
| "status_code ValueError = 500"
| "status_code IntegrityError = 500"
| "status_code MultipleResultsFound = 500"

section \<open>Statements against the refresh-token table\<close>

text \<open>
  \<^verbatim>\<open>update(RefreshToken).where(p).values(is_revoked=True)\<close>: every row matching \<open>p\<close> gets
  the flag and the \<^verbatim>\<open>onupdate\<close> stamp; \<^verbatim>\<open>result.rowcount\<close> is the number of rows matched.
\<close>

definition revoke_where :: "(RefreshToken \<Rightarrow> bool) \<Rightarrow> timestamp \<Rightarrow> RefreshToken list \<Rightarrow> RefreshToken list" where
  "revoke_where p now rows =
     map (\<lambda>r. if p r then r\<lparr>updated_at := now, is_revoked := True\<rparr> else r) rows"

definition rowcount :: "(RefreshToken \<Rightarrow> bool) \<Rightarrow> RefreshToken list \<Rightarrow> int" where
  "rowcount p rows = int (length (filter p rows))"

text \<open>Python's truth value of an optional string: \<^verbatim>\<open>None\<close> and \<^verbatim>\<open>""\<close> are false.\<close>

fun truthy :: "string option \<Rightarrow> bool" where
  "truthy None = False"
| "truthy (Some s) = (s \<noteq> [])"

text \<open>
  \<^verbatim>\<open>store_refresh_token\<close>. The UPDATE of the same-device rows and the INSERT are one
  transaction: when the INSERT violates the unique index on \<^verbatim>\<open>token\<close> or the foreign key on
  \<^verbatim>\<open>user_id\<close>, the commit raises and the table is as before; the sequence value drawn for the
  row is not given back.
\<close>

definition request_user_agent :: "Request option \<Rightarrow> string option" where
  "request_user_agent req = (case req of None \<Rightarrow> None | Some r \<Rightarrow> map_of (headers r) ''user-agent'')"

definition request_ip_address :: "Request option \<Rightarrow> string option" where
  "request_ip_address req = (case req of None \<Rightarrow> None | Some r \<Rightarrow> client_host r)"

definition store_refresh_token ::
  "Settings \<Rightarrow> timestamp \<Rightarrow> int \<Rightarrow> string \<Rightarrow> Request option \<Rightarrow> bool \<Rightarrow> db \<Rightarrow> (error + RefreshToken) \<times> db" where
  "store_refresh_token cfg now uid tok req revoke_same_device d =
     (let expires = now + timedelta_days (REFRESH_TOKEN_EXPIRE_DAYS cfg);
          ua = request_user_agent req;
          ip = request_ip_address req;
          rows = (if revoke_same_device \<and> truthy ua
                  then revoke_where (\<lambda>r. user_id r = uid \<and> user_agent r = ua \<and> \<not> is_revoked r)
                         now (refreshtokens d)
                  else refreshtokens d);
          new_id = refreshtokens_id_seq d;
          row = \<lparr>id_col = new_id, created_at = now, updated_at = now, user_id = uid,
                 token = tok, expires_at = expires, is_revoked = False,
                 user_agent = ua, ip_address = ip\<rparr>
      in if tok \<in> set (map token (refreshtokens d)) \<or> uid \<notin> set (map id_col (users d))
         then (Inl IntegrityError, d\<lparr>refreshtokens_id_seq := new_id + 1\<rparr>)
         else (Inr row, d\<lparr>refreshtokens := rows @ [row], refreshtokens_id_seq := new_id + 1\<rparr>))"

text \<open>\<^verbatim>\<open>validate_refresh_token\<close>: a SELECT, \<^verbatim>\<open>.first()\<close> of its rows.\<close>

definition validate_refresh_token :: "timestamp \<Rightarrow> string \<Rightarrow> db \<Rightarrow> RefreshToken option" where
  "validate_refresh_token now tok d =
     (case filter (\<lambda>r. token r = tok \<and> \<not> is_revoked r \<and> expires_at r > now) (refreshtokens d) of
        [] \<Rightarrow> None
      | r # _ \<Rightarrow> Some r)"

definition revoke_refresh_token :: "timestamp \<Rightarrow> string \<Rightarrow> db \<Rightarrow> bool \<times> db" where
  "revoke_refresh_token now tok d =
     (let p = (\<lambda>r. token r = tok)
      in (rowcount p (refreshtokens d) > 0,
          d\<lparr>refreshtokens := revoke_where p now (refreshtokens d)\<rparr>))"

definition revoke_all_user_refresh_tokens :: "timestamp \<Rightarrow> int \<Rightarrow> db \<Rightarrow> int \<times> db" where
  "revoke_all_user_refresh_tokens now uid d =
     (let p = (\<lambda>r. user_id r = uid \<and> \<not> is_revoked r)
      in (rowcount p (refreshtokens d),
          d\<lparr>refreshtokens := revoke_where p now (refreshtokens d)\<rparr>))"

definition cleanup_expired_tokens :: "timestamp \<Rightarrow> db \<Rightarrow> int \<times> db" where
  "cleanup_expired_tokens now d =
     (let p = (\<lambda>r. expires_at r < now \<or> is_revoked r)
      in (rowcount p (refreshtokens d),
          d\<lparr>refreshtokens := filter (\<lambda>r. \<not> p r) (refreshtokens d)\<rparr>))"

text \<open>
  \<^verbatim>\<open>get_active_session_tokens\<close>: \<^verbatim>\<open>ORDER BY created_at DESC\<close>. SQL leaves the order of rows
  with equal \<^verbatim>\<open>created_at\<close> open; the stable sort takes them in storage order.
\<close>

definition get_active_session_tokens :: "timestamp \<Rightarrow> int \<Rightarrow> db \<Rightarrow> RefreshToken list" where
  "get_active_session_tokens now uid d =
     sort_key (\<lambda>r. - created_at r)
       (filter (\<lambda>r. user_id r = uid \<and> \<not> is_revoked r \<and> expires_at r > now) (refreshtokens d))"

record session_info =
  si_id :: int
  si_user_agent :: "string option"
  si_ip_address :: "string option"
  si_created_at :: timestamp
  si_expires_at :: timestamp

definition get_active_sessions :: "timestamp \<Rightarrow> int \<Rightarrow> db \<Rightarrow> session_info list" where
  "get_active_sessions now uid d =
     map (\<lambda>t. \<lparr>si_id = id_col t, si_user_agent = user_agent t, si_ip_address = ip_address t,
               si_created_at = created_at t, si_expires_at = expires_at t\<rparr>)
       (get_active_session_tokens now uid d)"

definition revoke_session_by_id :: "timestamp \<Rightarrow> int \<Rightarrow> int \<Rightarrow> db \<Rightarrow> bool \<times> db" where
  "revoke_session_by_id now token_id uid d =
     (let p = (\<lambda>r. id_col r = token_id \<and> user_id r = uid)
      in (rowcount p (refreshtokens d) > 0,
          d\<lparr>refreshtokens := revoke_where p now (refreshtokens d)\<rparr>))"

text \<open>Python's \<^verbatim>\<open>xs[m:]\<close>: a negative \<open>m\<close> counts from the end and is clipped at the start.\<close>

definition slice_from :: "'a list \<Rightarrow> int \<Rightarrow> 'a list" where
  "slice_from xs m = (if 0 \<le> m then drop (nat m) xs else drop (nat (int (length xs) + m)) xs)"

definition limit_active_sessions :: "timestamp \<Rightarrow> int \<Rightarrow> int \<Rightarrow> db \<Rightarrow> int \<times> db" where
  "limit_active_sessions now uid max_sessions d =
     (let tokens = get_active_session_tokens now uid d
      in if int (length tokens) > max_sessions
         then (let tokens_to_revoke = slice_from tokens max_sessions;
                   token_ids = map id_col tokens_to_revoke;
                   p = (\<lambda>r. id_col r \<in> set token_ids)
               in (rowcount p (refreshtokens d),
                   d\<lparr>refreshtokens := revoke_where p now (refreshtokens d)\<rparr>))
         else (0, d))"

section \<open>Identities and access tokens\<close>

text \<open>
  \<^verbatim>\<open>BaseDAO.find_one_or_none\<close>: \<^verbatim>\<open>scalar_one_or_none\<close> raises when the filter matches more
  than one row.
\<close>

definition find_one_or_none :: "('a \<Rightarrow> bool) \<Rightarrow> 'a list \<Rightarrow> error + 'a option" where
  "find_one_or_none p rows =
     (case filter p rows of
        [] \<Rightarrow> Inr None
      | [r] \<Rightarrow> Inr (Some r)
      | _ \<Rightarrow> Inl MultipleResultsFound)"

text \<open>
  \<^verbatim>\<open>authenticate_user\<close>. \<^verbatim>\<open>verify_password\<close> lives in \<^verbatim>\<open>app/auth/utils.py\<close> and is a
  parameter here.
\<close>

definition authenticate_user ::
  "(string \<Rightarrow> string \<Rightarrow> bool) \<Rightarrow> string \<Rightarrow> string \<Rightarrow> db \<Rightarrow> error + User option" where
  "authenticate_user verify_password email_username pw d =
     (case (if CHR ''@'' \<in> set email_username
            then find_one_or_none (\<lambda>u. email u = email_username) (users d)
            else find_one_or_none (\<lambda>u. username u = email_username) (users d)) of
        Inl e \<Rightarrow> Inl e
      | Inr None \<Rightarrow> Inr None
      | Inr (Some u) \<Rightarrow> if verify_password pw (password u) = False then Inr None else Inr (Some u))"

text \<open>
  The claims of an access token. Signing and parsing are the JWT library's; the model carries
  the claims themselves, \<^verbatim>\<open>exp\<close> in whole seconds as the library encodes a \<^verbatim>\<open>datetime\<close>
  and as \<^verbatim>\<open>int\<close> reads it back.
  \<open>jti_draw\<close> is the outcome of \<^verbatim>\<open>secrets.token_urlsafe(8)\<close>.
\<close>

record payload =
  sub :: "string option"
  jti :: "string option"
  exp :: "int option"

definition create_access_token :: "Settings \<Rightarrow> timestamp \<Rightarrow> string \<Rightarrow> string \<Rightarrow> payload" where
  "create_access_token cfg now data_sub jti_draw =
     \<lparr>sub = Some data_sub, jti = Some jti_draw,
      exp = Some ((now + timedelta_minutes (ACCESS_TOKEN_EXPIRE_MINUTES cfg)) div 1000000)\<rparr>"

record TokenResponse =
  access_token :: payload
  refresh_token :: string
  expires_in :: int

text \<open>
  \<^verbatim>\<open>set_auth_tokens\<close>; \<open>refresh_draw\<close> is the outcome of \<^verbatim>\<open>create_refresh_token()\<close>. The call
  of \<^verbatim>\<open>store_refresh_token\<close> passes no \<^verbatim>\<open>revoke_same_device\<close>, which therefore has its
  default \<^verbatim>\<open>True\<close>. The cookies written to the response are not part of the model.
\<close>

definition set_auth_tokens ::
  "Settings \<Rightarrow> timestamp \<Rightarrow> Request \<Rightarrow> int \<Rightarrow> string \<Rightarrow> string \<Rightarrow> string \<Rightarrow> db
     \<Rightarrow> (error + TokenResponse) \<times> db" where
  "set_auth_tokens cfg now req uid user_public_id jti_draw refresh_draw d =
     (let at = create_access_token cfg now user_public_id jti_draw
      in case store_refresh_token cfg now uid refresh_draw (Some req) True d of
           (Inl e, d') \<Rightarrow> (Inl e, d')
         | (Inr _, d') \<Rightarrow>
             (Inr \<lparr>access_token = at, refresh_token = refresh_draw,
                    expires_in = ACCESS_TOKEN_EXPIRE_MINUTES cfg * 60\<rparr>, d'))"

section \<open>Routes\<close>

text \<open>
  The routes of \<^verbatim>\<open>app/auth/router.py\<close>. A route that depends on \<^verbatim>\<open>get_current_user\<close> takes
  the resolved user.
\<close>

definition auth_user ::
  "(string \<Rightarrow> string \<Rightarrow> bool) \<Rightarrow> Settings \<Rightarrow> timestamp \<Rightarrow> Request \<Rightarrow> string \<Rightarrow> string
     \<Rightarrow> string \<Rightarrow> string \<Rightarrow> db \<Rightarrow> (error + TokenResponse) \<times> db" where
  "auth_user verify_password cfg now req email_username pw jti_draw refresh_draw d =
     (case authenticate_user verify_password email_username pw d of
        Inl e \<Rightarrow> (Inl e, d)
      | Inr None \<Rightarrow> (Inl IncorrectEmailOrPasswordException, d)
      | Inr (Some u) \<Rightarrow> set_auth_tokens cfg now req (id_col u) (public_id u) jti_draw refresh_draw d)"

text \<open>
  \<^verbatim>\<open>refresh_tokens\<close>: \<open>cookie\<close> is the \<^verbatim>\<open>users_refresh_token\<close> cookie and \<open>body\<close> the
  \<^verbatim>\<open>token\<close> of the request body, each when present. \<^verbatim>\<open>user.id\<close> on the \<^verbatim>\<open>None\<close> of a
  missing user raises \<^verbatim>\<open>AttributeError\<close>.
\<close>

definition token_to_use :: "string option \<Rightarrow> string option \<Rightarrow> string option" where
  "token_to_use body cookie = (if truthy body then body else cookie)"

definition refresh_tokens ::
  "Settings \<Rightarrow> timestamp \<Rightarrow> Request \<Rightarrow> string option \<Rightarrow> string option \<Rightarrow> string \<Rightarrow> string \<Rightarrow> db
     \<Rightarrow> (error + TokenResponse) \<times> db" where
  "refresh_tokens cfg now req cookie body jti_draw refresh_draw d =
     (case token_to_use body cookie of
        None \<Rightarrow> (Inl NoRefreshTokenException, d)
      | Some t \<Rightarrow>
          if t = [] then (Inl NoRefreshTokenException, d)
          else (case validate_refresh_token now t d of
                  None \<Rightarrow> (Inl NoValidRefreshTokenException, d)
                | Some stored_token \<Rightarrow>
                    (case find_one_or_none (\<lambda>u. id_col u = user_id stored_token) (users d) of
                       Inl e \<Rightarrow> (Inl e, d)
                     | Inr None \<Rightarrow> (Inl AttributeError, d)
                     | Inr (Some u) \<Rightarrow>
                         if id_col u \<noteq> user_id stored_token
                         then (Inl NoValidRefreshTokenException, d)
                         else set_auth_tokens cfg now req (user_id stored_token) (public_id u)
                                jti_draw refresh_draw (snd (revoke_refresh_token now t d)))))"

definition logout_user :: "timestamp \<Rightarrow> User \<Rightarrow> string option \<Rightarrow> bool \<Rightarrow> db \<Rightarrow> (error + unit) \<times> db" where
  "logout_user now u cookie all_devices d =
     (if all_devices then (Inr (), snd (revoke_all_user_refresh_tokens now (id_col u) d))
      else (case cookie of
              None \<Rightarrow> (Inr (), d)
            | Some t \<Rightarrow> if t = [] then (Inr (), d) else (Inr (), snd (revoke_refresh_token now t d))))"

definition list_active_sessions :: "timestamp \<Rightarrow> User \<Rightarrow> db \<Rightarrow> (error + session_info list) \<times> db" where
  "list_active_sessions now u d = (Inr (get_active_sessions now (id_col u) d), d)"

definition revoke_session :: "timestamp \<Rightarrow> int \<Rightarrow> User \<Rightarrow> db \<Rightarrow> (error + unit) \<times> db" where
  "revoke_session now session_id u d =
     (case revoke_session_by_id now session_id (id_col u) d of
        (success, d') \<Rightarrow> if \<not> success then (Inl NoSessionException, d') else (Inr (), d'))"

definition limit_sessions :: "timestamp \<Rightarrow> int \<Rightarrow> User \<Rightarrow> db \<Rightarrow> (error + int) \<times> db" where
  "limit_sessions now max_sessions u d =
     (if max_sessions < 1 then (Inl MaxSessionsException, d)
      else (case limit_active_sessions now (id_col u) max_sessions d of
              (count, d') \<Rightarrow> (Inr count, d')))"

text \<open>
  \<^verbatim>\<open>get_current_admin_user\<close> guards the cleanup route; \<^verbatim>\<open>role.id\<close> of the joined role is
  the user's \<^verbatim>\<open>role_id\<close>.
\<close>

definition get_current_admin_user :: "User \<Rightarrow> error + User" where
  "get_current_admin_user current_user =
     (if role_id current_user \<in> set [3, 4] then Inr current_user else Inl ForbiddenException)"

definition cleanup_expired_tokens_route :: "timestamp \<Rightarrow> User \<Rightarrow> db \<Rightarrow> (error + int) \<times> db" where
  "cleanup_expired_tokens_route now u d =
     (case get_current_admin_user u of
        Inl e \<Rightarrow> (Inl e, d)
      | Inr _ \<Rightarrow> (case cleanup_expired_tokens now d of (count, d') \<Rightarrow> (Inr count, d')))"

section \<open>Access verification\<close>

text \<open>
  \<^verbatim>\<open>get_current_user\<close>. \<open>jwt_decode\<close> stands for
  \<^verbatim>\<open>jwt.decode(token, settings.SECRET_KEY, algorithms=settings.ALGORITHM)\<close> of the JWT library:
  \<open>None\<close> when it raises \<^verbatim>\<open>JWTError\<close>, the claims otherwise. \<^verbatim>\<open>int(expire)\<close> raises
  \<^verbatim>\<open>TypeError\<close> on the \<^verbatim>\<open>None\<close> of a missing claim, and \<^verbatim>\<open>datetime.fromtimestamp\<close> raises
  outside the years 1 to 9999; both come before the test of \<^verbatim>\<open>expire\<close>.
\<close>

definition fromtimestamp :: "int \<Rightarrow> error + timestamp" where
  "fromtimestamp secs =
     (if secs < - 62135596800 \<or> 253402300799 < secs then Inl ValueError
      else Inr (secs * 1000000))"

definition get_current_user ::
  "(string \<Rightarrow> payload option) \<Rightarrow> timestamp \<Rightarrow> string \<Rightarrow> db \<Rightarrow> error + User" where
  "get_current_user jwt_decode now tok d =
     (case jwt_decode tok of
        None \<Rightarrow> Inl NoJwtException
      | Some pl \<Rightarrow>
          (case exp pl of
             None \<Rightarrow> Inl TypeError
           | Some expire \<Rightarrow>
               (case fromtimestamp expire of
                  Inl e \<Rightarrow> Inl e
                | Inr expire_time \<Rightarrow>
                    if expire = 0 \<or> expire_time < now then Inl TokenExpiredException
                    else (case sub pl of
                            None \<Rightarrow> Inl NoUserIdException
                          | Some user_public_id \<Rightarrow>
                              if user_public_id = [] then Inl NoUserIdException
                              else (case find_one_or_none (\<lambda>u. public_id u = user_public_id) (users d) of
                                      Inl e \<Rightarrow> Inl e
                                    | Inr None \<Rightarrow> Inl UserNotFound
                                    | Inr (Some u) \<Rightarrow> Inr u)))))"

section \<open>Operations as transitions\<close>

text \<open>
  Every function of \<^verbatim>\<open>app/auth/auth.py\<close> that touches the refresh-token table and every route
  of \<^verbatim>\<open>app/auth/router.py\<close> over them, as an operation with its arguments; \<open>exec\<close> is the
  database an operation leaves behind, whatever it returns or raises, and \<open>run\<close> executes a
  sequence of operations. \<open>verify_password\<close> is the parameter of \<open>authenticate_user\<close>.
\<close>

datatype op =
    Store Settings timestamp int string "Request option" bool
  | Validate timestamp string
  | RevokeToken timestamp string
  | RevokeAll timestamp int
  | RevokeById timestamp int int
  | ListActive timestamp int
  | LimitActive timestamp int int
  | Cleanup timestamp
  | Login Settings timestamp Request string string string string
  | Refresh Settings timestamp Request "string option" "string option" string string
  | Logout timestamp User "string option" bool
  | ListSessions timestamp User
  | RevokeSession timestamp int User
  | LimitSessions timestamp int User
  | CleanupRoute timestamp User

fun exec :: "(string \<Rightarrow> string \<Rightarrow> bool) \<Rightarrow> op \<Rightarrow> db \<Rightarrow> db" where
  "exec verify_password (Store cfg now uid tok req revoke_same_device) d =
     snd (store_refresh_token cfg now uid tok req revoke_same_device d)"
| "exec verify_password (Validate now tok) d = d"
| "exec verify_password (RevokeToken now tok) d = snd (revoke_refresh_token now tok d)"
| "exec verify_password (RevokeAll now uid) d = snd (revoke_all_user_refresh_tokens now uid d)"
| "exec verify_password (RevokeById now token_id uid) d = snd (revoke_session_by_id now token_id uid d)"
| "exec verify_password (ListActive now uid) d = d"
| "exec verify_password (LimitActive now uid max_sessions) d =
     snd (limit_active_sessions now uid max_sessions d)"
| "exec verify_password (Cleanup now) d = snd (cleanup_expired_tokens now d)"
| "exec verify_password (Login cfg now req email_username pw jti_draw refresh_draw) d =
     snd (auth_user verify_password cfg now req email_username pw jti_draw refresh_draw d)"
| "exec verify_password (Refresh cfg now req cookie body jti_draw refresh_draw) d =
     snd (refresh_tokens cfg now req cookie body jti_draw refresh_draw d)"
| "exec verify_password (Logout now u cookie all_devices) d = snd (logout_user now u cookie all_devices d)"
| "exec verify_password (ListSessions now u) d = snd (list_active_sessions now u d)"
| "exec verify_password (RevokeSession now session_id u) d = snd (revoke_session now session_id u d)"
| "exec verify_password (LimitSessions now max_sessions u) d = snd (limit_sessions now max_sessions u d)"
| "exec verify_password (CleanupRoute now u) d = snd (cleanup_expired_tokens_route now u d)"

definition run :: "(string \<Rightarrow> string \<Rightarrow> bool) \<Rightarrow> op list \<Rightarrow> db \<Rightarrow> db" where
  "run verify_password ops d = fold (exec verify_password) ops d"

text \<open>
  The refresh secret an operation draws for a new row, if it inserts one; and the state of a
  secret all of whose rows are revoked.
\<close>

fun drawn_secret :: "op \<Rightarrow> string option" where
  "drawn_secret (Store cfg now uid tok req revoke_same_device) = Some tok"
| "drawn_secret (Login cfg now req email_username pw jti_draw refresh_draw) = Some refresh_draw"
| "drawn_secret (Refresh cfg now req cookie body jti_draw refresh_draw) = Some refresh_draw"
| "drawn_secret _ = None"

definition secret_dead :: "string \<Rightarrow> db \<Rightarrow> bool" where
  "secret_dead t d \<longleftrightarrow> (\<forall>x \<in> set (refreshtokens d). token x = t \<longrightarrow> is_revoked x)"

text \<open>
  The constraints of the table: the primary key, the unique index on \<^verbatim>\<open>token\<close>, and a
  sequence that is ahead of every id in use.
\<close>

definition wf_db :: "db \<Rightarrow> bool" where
  "wf_db d \<longleftrightarrow>
     distinct (map id_col (refreshtokens d)) \<and> distinct (map token (refreshtokens d))
     \<and> (\<forall>x \<in> set (refreshtokens d). id_col x < refreshtokens_id_seq d)"

text \<open>Every row with id \<open>i\<close> is revoked, and the sequence is past \<open>i\<close>.\<close>

definition stays_revoked :: "int \<Rightarrow> db \<Rightarrow> bool" where
  "stays_revoked i d \<longleftrightarrow>
     (\<forall>x \<in> set (refreshtokens d). id_col x = i \<longrightarrow> is_revoked x) \<and> i < refreshtokens_id_seq d"

text \<open>
  The constraints between the two tables: the primary key of \<^verbatim>\<open>users\<close>, and the foreign key
  \<^verbatim>\<open>ForeignKey("users.id")\<close> of \<^verbatim>\<open>refreshtokens.user_id\<close>, which has no \<^verbatim>\<open>ondelete\<close>.
\<close>

definition fk_ok :: "db \<Rightarrow> bool" where
  "fk_ok d \<longleftrightarrow>
     distinct (map id_col (users d))
     \<and> (\<forall>r \<in> set (refreshtokens d). user_id r \<in> set (map id_col (users d)))"

section \<open>Example states\<close>

text \<open>
  Two users and two devices. \<open>db_one\<close> is the table after alice has logged in from device A
  at time 1000; \<open>db_rotated\<close> is the table after she has rotated that token at time 2000.
\<close>

definition cfg0 :: Settings where
  "cfg0 = \<lparr>ACCESS_TOKEN_EXPIRE_MINUTES = 15, REFRESH_TOKEN_EXPIRE_DAYS = 7\<rparr>"

definition alice :: User where
  "alice = \<lparr>id_col = 1, created_at = 0, updated_at = 0, username = ''alice'', first_name = None,
            email = ''alice@example.org'', password = ''#secret'', role_id = 1, public_id = ''pa''\<rparr>"

definition bob :: User where
  "bob = \<lparr>id_col = 2, created_at = 0, updated_at = 0, username = ''bob'', first_name = None,
          email = ''bob@example.org'', password = ''#hunter2'', role_id = 3, public_id = ''pb''\<rparr>"

definition req_A :: Request where
  "req_A = \<lparr>headers = [(''user-agent'', ''A'')], client_host = Some ''10.0.0.1''\<rparr>"

definition req_B :: Request where
  "req_B = \<lparr>headers = [(''user-agent'', ''B'')], client_host = Some ''10.0.0.2''\<rparr>"

definition row_R1 :: RefreshToken where
  "row_R1 = \<lparr>id_col = 1, created_at = 1000, updated_at = 1000, user_id = 1, token = ''R1'',
             expires_at = 604800001000, is_revoked = False, user_agent = Some ''A'',
             ip_address = Some ''10.0.0.1''\<rparr>"

definition db_one :: db where
  "db_one = \<lparr>refreshtokens = [row_R1], users = [alice, bob], refreshtokens_id_seq = 2\<rparr>"

definition db_rotated :: db where
  "db_rotated =
     \<lparr>refreshtokens =
        [row_R1\<lparr>updated_at := 2000, is_revoked := True\<rparr>,
         \<lparr>id_col = 2, created_at = 2000, updated_at = 2000, user_id = 1, token = ''R2'',
          expires_at = 604800002000, is_revoked = False, user_agent = Some ''A'',
          ip_address = Some ''10.0.0.1''\<rparr>],
      users = [alice, bob], refreshtokens_id_seq = 3\<rparr>"

definition resp_rotated :: TokenResponse where
  "resp_rotated = \<lparr>access_token = \<lparr>sub = Some ''pa'', jti = Some ''j2'', exp = Some 900\<rparr>,
                    refresh_token = ''R2'', expires_in = 900\<rparr>"

text \<open>
  \<open>db_init\<close> is the database before anyone has logged in; \<open>db_two\<close> is the table after alice
  has logged in from device A at time 1000 and from device B at time 1500. \<open>verify0\<close> is a
  stand-in for \<^verbatim>\<open>verify_password\<close>.
\<close>

definition db_init :: db where
  "db_init = \<lparr>refreshtokens = [], users = [alice, bob], refreshtokens_id_seq = 1\<rparr>"

definition row_RB :: RefreshToken where
  "row_RB = \<lparr>id_col = 2, created_at = 1500, updated_at = 1500, user_id = 1, token = ''RB'',
             expires_at = 604800001500, is_revoked = False, user_agent = Some ''B'',
             ip_address = Some ''10.0.0.2''\<rparr>"

definition db_two :: db where
  "db_two = \<lparr>refreshtokens = [row_R1, row_RB], users = [alice, bob], refreshtokens_id_seq = 3\<rparr>"

definition db_two_rotated :: db where
  "db_two_rotated =
     \<lparr>refreshtokens =
        [row_R1\<lparr>updated_at := 3000, is_revoked := True\<rparr>,
         row_RB\<lparr>updated_at := 3000, is_revoked := True\<rparr>,
         \<lparr>id_col = 3, created_at = 3000, updated_at = 3000, user_id = 1, token = ''R3'',
          expires_at = 604800003000, is_revoked = False, user_agent = Some ''B'',
          ip_address = Some ''10.0.0.2''\<rparr>],
      users = [alice, bob], refreshtokens_id_seq = 4\<rparr>"

definition resp_two_rotated :: TokenResponse where
  "resp_two_rotated = \<lparr>access_token = \<lparr>sub = Some ''pa'', jti = Some ''j3'', exp = Some 900\<rparr>,
                        refresh_token = ''R3'', expires_in = 900\<rparr>"

definition verify0 :: "string \<Rightarrow> string \<Rightarrow> bool" where
  "verify0 plain hashed = (hashed = CHR ''#'' # plain)"

definition payload_no_exp :: payload where
  "payload_no_exp = \<lparr>sub = Some ''pa'', jti = Some ''j1'', exp = None\<rparr>"

definition resp_one :: TokenResponse where
  "resp_one = \<lparr>access_token = \<lparr>sub = Some ''pa'', jti = Some ''j1'', exp = Some 900\<rparr>,
                refresh_token = ''R1'', expires_in = 900\<rparr>"

text \<open>
  A request whose \<^verbatim>\<open>User-Agent\<close> header is present and empty, and the table after alice has
  logged in once (\<open>db_blank\<close>) and twice (\<open>db_blank_again\<close>) with it.
\<close>

definition req_blank :: Request where
  "req_blank = \<lparr>headers = [(''user-agent'', [])], client_host = Some ''10.0.0.3''\<rparr>"

definition row_blank :: RefreshToken where
  "row_blank = \<lparr>id_col = 1, created_at = 1000, updated_at = 1000, user_id = 1, token = ''R1'',
                expires_at = 604800001000, is_revoked = False, user_agent = Some [],
                ip_address = Some ''10.0.0.3''\<rparr>"

definition db_blank :: db where
  "db_blank = \<lparr>refreshtokens = [row_blank], users = [alice, bob], refreshtokens_id_seq = 2\<rparr>"

definition db_blank_again :: db where
  "db_blank_again =
     \<lparr>refreshtokens =
        [row_blank,
         \<lparr>id_col = 2, created_at = 2000, updated_at = 2000, user_id = 1, token = ''R2'',
          expires_at = 604800002000, is_revoked = False, user_agent = Some [],
          ip_address = Some ''10.0.0.3''\<rparr>],
      users = [alice, bob], refreshtokens_id_seq = 3\<rparr>"

text \<open>
  \<open>db_six\<close>: alice holds six active sessions, created at times 1000 to 6000 and stored in
  that order, and bob holds one.
\<close>

definition session_row :: "int \<Rightarrow> int \<Rightarrow> RefreshToken" where
  "session_row i uid =
     \<lparr>id_col = i, created_at = 1000 * i, updated_at = 1000 * i, user_id = uid,
      token = replicate (nat i) CHR ''s'', expires_at = 604800000000 + 1000 * i,
      is_revoked = False, user_agent = None, ip_address = None\<rparr>"

definition db_six :: db where
  "db_six =
     \<lparr>refreshtokens =
        [session_row 1 1, session_row 2 1, session_row 3 1, session_row 4 1, session_row 5 1,
         session_row 6 1, session_row 7 2],
      users = [alice, bob], refreshtokens_id_seq = 8\<rparr>"

definition revoked_at :: "timestamp \<Rightarrow> RefreshToken \<Rightarrow> RefreshToken" where
  "revoked_at now r = r\<lparr>updated_at := now, is_revoked := True\<rparr>"

definition db_six_capped :: db where
  "db_six_capped =
     \<lparr>refreshtokens =
        [revoked_at 9000 (session_row 1 1), revoked_at 9000 (session_row 2 1),
         revoked_at 9000 (session_row 3 1), session_row 4 1, session_row 5 1,
         session_row 6 1, session_row 7 2],
      users = [alice, bob], refreshtokens_id_seq = 8\<rparr>"

text \<open>
  A sequence of operations on \<open>db_rotated\<close>, whose first row is revoked: the revoked secret is
  presented again, alice logs in anew from the same device, asks to revoke session 1 once
  more, caps her sessions at one, logs out everywhere and logs in from device B.
\<close>

definition ops_after_rotation :: "op list" where
  "ops_after_rotation =
     [Refresh cfg0 3000 req_A (Some ''R1'') None ''j3'' ''R3'',
      Login cfg0 4000 req_A ''alice'' ''secret'' ''j4'' ''R4'',
      RevokeSession 5000 1 alice,
      LimitSessions 5500 1 alice,
      Logout 6000 alice None True,
      Login cfg0 7000 req_B ''alice@example.org'' ''secret'' ''j7'' ''R7'']"

text \<open>
  Operations between a rotation and a replay: bob, an administrator, runs the cleanup, and
  alice logs in from device B.
\<close>

definition ops_between :: "op list" where
  "ops_between =
     [CleanupRoute 2500 bob,
      Login cfg0 2600 req_B ''alice'' ''secret'' ''j5'' ''RB'']"

section \<open>Predicates of the statements below\<close>

text \<open>
  The rows a rotation updates: the one holding the presented secret \<open>t\<close> and, when the
  request's user-agent \<open>ua\<close> is true in Python's sense, the rows of user \<open>uid\<close> with that
  user-agent that are not revoked yet.
\<close>

definition rotation_touches :: "string \<Rightarrow> int \<Rightarrow> string option \<Rightarrow> RefreshToken \<Rightarrow> bool" where
  "rotation_touches t uid ua x \<longleftrightarrow>
     token x = t \<or> (truthy ua \<and> user_id x = uid \<and> user_agent x = ua \<and> \<not> is_revoked x)"

text \<open>A row with the given id belongs to the given user.\<close>

definition owned :: "int \<Rightarrow> int \<Rightarrow> db \<Rightarrow> bool" where
  "owned token_id uid d \<longleftrightarrow> (\<exists>r \<in> set (refreshtokens d). id_col r = token_id \<and> user_id r = uid)"

text \<open>The condition of \<^verbatim>\<open>get_active_session_tokens\<close>: an active session of the user.\<close>

definition is_active_of :: "timestamp \<Rightarrow> int \<Rightarrow> RefreshToken \<Rightarrow> bool" where
  "is_active_of now uid r \<longleftrightarrow> user_id r = uid \<and> \<not> is_revoked r \<and> expires_at r > now"

section \<open>Properties\<close>

lemmas engine_defs =
  store_refresh_token_def validate_refresh_token_def revoke_refresh_token_def
  revoke_all_user_refresh_tokens_def cleanup_expired_tokens_def get_active_session_tokens_def
  revoke_session_by_id_def limit_active_sessions_def slice_from_def revoke_where_def rowcount_def
  request_user_agent_def request_ip_address_def timedelta_days_def timedelta_minutes_def
  find_one_or_none_def authenticate_user_def create_access_token_def set_auth_tokens_def
  auth_user_def token_to_use_def refresh_tokens_def logout_user_def revoke_session_def
  limit_sessions_def

lemmas example_defs =
  cfg0_def alice_def bob_def req_A_def req_B_def row_R1_def db_one_def db_rotated_def
  resp_rotated_def db_init_def row_RB_def db_two_def db_two_rotated_def resp_two_rotated_def
  verify0_def payload_no_exp_def
  resp_one_def req_blank_def row_blank_def db_blank_def db_blank_again_def
  session_row_def db_six_def revoked_at_def db_six_capped_def

subsection \<open>The UPDATE statement\<close>

lemma revoke_where_fields:
  assumes "r' \<in> set (revoke_where p now rows)"
  shows "\<exists>r \<in> set rows. id_col r' = id_col r \<and> token r' = token r \<and> user_id r' = user_id r
           \<and> expires_at r' = expires_at r \<and> created_at r' = created_at r
           \<and> user_agent r' = user_agent r \<and> ip_address r' = ip_address r
           \<and> (is_revoked r' \<longleftrightarrow> is_revoked r \<or> p r) \<and> (\<not> p r \<longrightarrow> r' = r)"
  using assms by (auto simp: revoke_where_def)

lemma map_token_revoke_where [simp]: "map token (revoke_where p now rows) = map token rows"
  by (simp add: revoke_where_def)

lemma map_id_col_revoke_where [simp]: "map id_col (revoke_where p now rows) = map id_col rows"
  by (simp add: revoke_where_def)

lemma length_revoke_where [simp]: "length (revoke_where p now rows) = length rows"
  by (simp add: revoke_where_def)

lemma length_filter_compl: "length (filter p xs) + length (filter (\<lambda>x. \<not> p x) xs) = length xs"
  by (induction xs) auto

subsection \<open>Finding an active token\<close>

lemma validate_refresh_token_None:
  "validate_refresh_token now tok d = None \<longleftrightarrow>
     \<not> (\<exists>r \<in> set (refreshtokens d). token r = tok \<and> \<not> is_revoked r \<and> now < expires_at r)"
proof -
  let ?p = "\<lambda>r. token r = tok \<and> \<not> is_revoked r \<and> expires_at r > now"
  have "validate_refresh_token now tok d = None \<longleftrightarrow> filter ?p (refreshtokens d) = []"
    by (simp add: validate_refresh_token_def split: list.splits)
  then show ?thesis by (simp add: filter_empty_conv)
qed

lemma validate_refresh_token_Some:
  assumes "validate_refresh_token now tok d = Some r"
  shows "r \<in> set (refreshtokens d) \<and> token r = tok \<and> \<not> is_revoked r \<and> now < expires_at r"
proof -
  let ?p = "\<lambda>r. token r = tok \<and> \<not> is_revoked r \<and> expires_at r > now"
  from assms obtain rs where "filter ?p (refreshtokens d) = r # rs"
    by (auto simp: validate_refresh_token_def split: list.splits)
  then have "r \<in> set (filter ?p (refreshtokens d))"
    by simp
  then show ?thesis by simp
qed

text \<open>
  C9: \<^verbatim>\<open>validate_refresh_token\<close> (the store's find-active) returns a record exactly when some
  stored record has the presented secret, is not revoked and expires strictly after \<open>now\<close>;
  the record it returns is such a stored record. It is a SELECT: a function of the table that
  yields no successor state.
\<close>

theorem find_active_iff:
  "(validate_refresh_token now tok d \<noteq> None \<longleftrightarrow>
      (\<exists>r \<in> set (refreshtokens d). token r = tok \<and> \<not> is_revoked r \<and> now < expires_at r))
   \<and> (\<forall>r. validate_refresh_token now tok d = Some r \<longrightarrow>
          r \<in> set (refreshtokens d) \<and> token r = tok \<and> \<not> is_revoked r \<and> now < expires_at r)"
  using validate_refresh_token_None [of now tok d] validate_refresh_token_Some [of now tok d]
  by blast

theorem find_active_iff_witness:
  "validate_refresh_token 2000 ''R1'' db_one = Some row_R1
   \<and> row_R1 \<in> set (refreshtokens db_one) \<and> token row_R1 = ''R1'' \<and> \<not> is_revoked row_R1
   \<and> 2000 < expires_at row_R1
   \<and> validate_refresh_token 2000 ''R1'' db_rotated = None
   \<and> validate_refresh_token 604800001000 ''R1'' db_one = None"
proof -
  have a: "validate_refresh_token 2000 ''R1'' db_one = Some row_R1"
    by (simp add: validate_refresh_token_def example_defs)
  have b: "\<not> (\<exists>r \<in> set (refreshtokens db_rotated).
              token r = ''R1'' \<and> \<not> is_revoked r \<and> 2000 < expires_at r)"
    by (simp add: example_defs)
  have c: "\<not> (\<exists>r \<in> set (refreshtokens db_one).
              token r = ''R1'' \<and> \<not> is_revoked r \<and> 604800001000 < expires_at r)"
    by (simp add: example_defs)
  from a b c find_active_iff [of 2000 "''R1''" db_one] find_active_iff [of 2000 "''R1''" db_rotated]
    find_active_iff [of 604800001000 "''R1''" db_one]
  show ?thesis by blast
qed

subsection \<open>The cleanup sweep\<close>

text \<open>
  C8: \<^verbatim>\<open>cleanup_expired_tokens\<close> deletes exactly the rows with
  \<open>expires_at < now \<or> is_revoked\<close>, returns how many they were, and keeps every other row as
  it was and in place. (A row with \<open>expires_at = now\<close> is among those kept.)
\<close>

theorem cleanup_exact:
  "cleanup_expired_tokens now d = (n, d') \<Longrightarrow>
     refreshtokens d' = filter (\<lambda>r. \<not> (expires_at r < now \<or> is_revoked r)) (refreshtokens d)
     \<and> (\<forall>r. r \<in> set (refreshtokens d') \<longleftrightarrow>
              r \<in> set (refreshtokens d) \<and> \<not> (expires_at r < now \<or> is_revoked r))
     \<and> n = int (length (filter (\<lambda>r. expires_at r < now \<or> is_revoked r) (refreshtokens d)))
     \<and> n = int (length (refreshtokens d)) - int (length (refreshtokens d'))
     \<and> users d' = users d \<and> refreshtokens_id_seq d' = refreshtokens_id_seq d"
  using length_filter_compl [of "\<lambda>r. expires_at r < now \<or> is_revoked r" "refreshtokens d"]
  by (auto simp: cleanup_expired_tokens_def rowcount_def)

theorem cleanup_exact_witness:
  "cleanup_expired_tokens 3000 db_rotated = (1, db_rotated\<lparr>refreshtokens := [last (refreshtokens db_rotated)]\<rparr>)
   \<and> refreshtokens (db_rotated\<lparr>refreshtokens := [last (refreshtokens db_rotated)]\<rparr>)
       = filter (\<lambda>r. \<not> (expires_at r < 3000 \<or> is_revoked r)) (refreshtokens db_rotated)
   \<and> (1::int) = int (length (refreshtokens db_rotated)) - 1"
proof -
  have a: "cleanup_expired_tokens 3000 db_rotated
             = (1, db_rotated\<lparr>refreshtokens := [last (refreshtokens db_rotated)]\<rparr>)"
    by (simp add: cleanup_expired_tokens_def rowcount_def example_defs)
  from cleanup_exact [OF a] a show ?thesis by simp
qed

subsection \<open>The database a route leaves behind\<close>

lemma set_auth_tokens_snd:
  "snd (set_auth_tokens cfg now req uid pid j r d)
     = snd (store_refresh_token cfg now uid r (Some req) True d)"
  by (simp add: set_auth_tokens_def Let_def split: prod.splits sum.splits)

lemma revoke_session_snd:
  "snd (revoke_session now sid u d) = snd (revoke_session_by_id now sid (id_col u) d)"
  by (simp add: revoke_session_def split: prod.splits)

lemma limit_sessions_snd:
  "snd (limit_sessions now m u d) = (if m < 1 then d else snd (limit_active_sessions now (id_col u) m d))"
  by (simp add: limit_sessions_def split: prod.splits)

lemma cleanup_route_snd:
  "snd (cleanup_expired_tokens_route now u d)
     = (if role_id u \<in> set [3, 4] then snd (cleanup_expired_tokens now d) else d)"
  by (simp add: cleanup_expired_tokens_route_def get_current_admin_user_def split: prod.splits)

subsection \<open>Rotation\<close>

lemma store_refresh_token_Inr:
  assumes "store_refresh_token cfg now uid tok req rsd d = (Inr row, d')"
  shows "tok \<notin> set (map token (refreshtokens d))"
    and "uid \<in> set (map id_col (users d))"
    and "refreshtokens d' =
           (if rsd \<and> truthy (request_user_agent req)
            then revoke_where (\<lambda>r. user_id r = uid \<and> user_agent r = request_user_agent req \<and> \<not> is_revoked r)
                   now (refreshtokens d)
            else refreshtokens d) @ [row]"
    and "row = \<lparr>id_col = refreshtokens_id_seq d, created_at = now, updated_at = now, user_id = uid,
                 token = tok, expires_at = now + timedelta_days (REFRESH_TOKEN_EXPIRE_DAYS cfg),
                 is_revoked = False, user_agent = request_user_agent req,
                 ip_address = request_ip_address req\<rparr>"
    and "users d' = users d"
    and "refreshtokens_id_seq d' = refreshtokens_id_seq d + 1"
  using assms by (auto simp: store_refresh_token_def Let_def split: if_splits)

lemma set_auth_tokens_Inr:
  assumes "set_auth_tokens cfg now req uid pid j r d = (Inr resp, d')"
  shows "\<exists>row. store_refresh_token cfg now uid r (Some req) True d = (Inr row, d')"
    and "refresh_token resp = r"
  using assms by (auto simp: set_auth_tokens_def Let_def split: prod.splits sum.splits)

lemma refresh_tokens_Inr:
  assumes "refresh_tokens cfg now req cookie body j r d = (Inr resp, d')"
  shows "\<exists>t stored u. token_to_use body cookie = Some t \<and> t \<noteq> []
           \<and> validate_refresh_token now t d = Some stored
           \<and> find_one_or_none (\<lambda>u. id_col u = user_id stored) (users d) = Inr (Some u)
           \<and> set_auth_tokens cfg now req (user_id stored) (public_id u) j r
                (snd (revoke_refresh_token now t d)) = (Inr resp, d')"
  using assms
  by (auto simp: refresh_tokens_def split: option.splits if_splits sum.splits)

lemma refresh_tokens_not_active:
  assumes "token_to_use body cookie = Some t" and "validate_refresh_token now t d = None"
  shows "refresh_tokens cfg now req cookie body j r d =
           (Inl (if t = [] then NoRefreshTokenException else NoValidRefreshTokenException), d)"
  using assms by (simp add: refresh_tokens_def)

lemma refreshtokens_revoke_refresh_token:
  "refreshtokens (snd (revoke_refresh_token now t d)) = revoke_where (\<lambda>r. token r = t) now (refreshtokens d)"
  by (simp add: revoke_refresh_token_def Let_def)

lemma secret_dead_rows:
  assumes "secret_dead t d"
    and "\<forall>x \<in> set rows. \<exists>y \<in> set (refreshtokens d). token x = token y \<and> (is_revoked y \<longrightarrow> is_revoked x)"
  shows "secret_dead t (d\<lparr>refreshtokens := rows\<rparr>)"
  using assms unfolding secret_dead_def by (simp, metis)

lemma revoke_where_sub_token:
  "\<forall>x \<in> set (revoke_where p now rows).
      \<exists>y \<in> set rows. token x = token y \<and> (is_revoked y \<longrightarrow> is_revoked x)"
proof
  fix x assume "x \<in> set (revoke_where p now rows)"
  from revoke_where_fields [OF this] obtain y :: RefreshToken where
    "y \<in> set rows" "token x = token y" "is_revoked x \<longleftrightarrow> is_revoked y \<or> p y"
    by blast
  then show "\<exists>y \<in> set rows. token x = token y \<and> (is_revoked y \<longrightarrow> is_revoked x)"
    by blast
qed

lemma secret_dead_revoke_where:
  "secret_dead t d \<Longrightarrow> secret_dead t (d\<lparr>refreshtokens := revoke_where p now (refreshtokens d)\<rparr>)"
  by (rule secret_dead_rows [OF _ revoke_where_sub_token])

lemma secret_dead_filter:
  "secret_dead t d \<Longrightarrow> secret_dead t (d\<lparr>refreshtokens := filter q (refreshtokens d)\<rparr>)"
  by (rule secret_dead_rows) auto

lemma secret_dead_store:
  assumes "secret_dead t d" and "tok \<noteq> t"
  shows "secret_dead t (snd (store_refresh_token cfg now uid tok req rsd d))"
proof (cases "tok \<in> set (map token (refreshtokens d)) \<or> uid \<notin> set (map id_col (users d))")
  case True
  with assms show ?thesis
    by (simp add: store_refresh_token_def Let_def secret_dead_def)
next
  case False
  let ?rows = "if rsd \<and> truthy (request_user_agent req)
               then revoke_where (\<lambda>r. user_id r = uid \<and> user_agent r = request_user_agent req \<and> \<not> is_revoked r)
                      now (refreshtokens d)
               else refreshtokens d"
  have old: "\<forall>x \<in> set ?rows. token x = t \<longrightarrow> is_revoked x"
  proof (cases "rsd \<and> truthy (request_user_agent req)")
    case True
    with secret_dead_revoke_where [OF assms(1)] show ?thesis
      by (simp add: secret_dead_def)
  next
    case False
    with assms(1) show ?thesis by (auto simp: secret_dead_def)
  qed
  with False assms(2) show ?thesis
    by (auto simp: store_refresh_token_def Let_def secret_dead_def)
qed

lemma secret_dead_exec:
  assumes "secret_dead t d" and "drawn_secret operation \<noteq> Some t"
  shows "secret_dead t (exec vp operation d)"
proof (cases operation)
  case (Store cfg now uid tok req rsd)
  with assms show ?thesis by (simp add: secret_dead_store)
next
  case (Login cfg now req eu pw j r)
  with assms show ?thesis
    by (simp add: auth_user_def set_auth_tokens_snd secret_dead_store split: sum.splits option.splits)
next
  case (Refresh cfg now req cookie body j r)
  with assms show ?thesis
    by (simp add: refresh_tokens_def set_auth_tokens_snd secret_dead_store revoke_refresh_token_def
          Let_def secret_dead_revoke_where split: sum.splits option.splits)
next
  case (Logout now u cookie all_devices)
  with assms show ?thesis
    by (simp add: logout_user_def revoke_all_user_refresh_tokens_def revoke_refresh_token_def
          Let_def secret_dead_revoke_where split: option.splits)
next
  case (CleanupRoute now u)
  with assms show ?thesis
    by (simp add: cleanup_route_snd cleanup_expired_tokens_def Let_def secret_dead_filter)
next
  case (LimitSessions now m u)
  with assms show ?thesis
    by (simp add: limit_sessions_snd limit_active_sessions_def Let_def secret_dead_revoke_where)
qed (use assms in \<open>simp_all add: revoke_refresh_token_def revoke_all_user_refresh_tokens_def
       revoke_session_by_id_def limit_active_sessions_def cleanup_expired_tokens_def
       revoke_session_snd list_active_sessions_def Let_def secret_dead_revoke_where
       secret_dead_filter\<close>)

lemma secret_dead_run:
  assumes "secret_dead t d" and "\<forall>operation \<in> set ops. drawn_secret operation \<noteq> Some t"
  shows "secret_dead t (run vp ops d)"
  using assms unfolding run_def
  by (induction ops arbitrary: d) (simp_all add: secret_dead_exec)

lemma refresh_kills_secret:
  assumes ok: "refresh_tokens cfg now req cookie body j r d = (Inr resp, d')"
  shows "\<exists>t. token_to_use body cookie = Some t \<and> t \<noteq> [] \<and> secret_dead t d'"
proof -
  from refresh_tokens_Inr [OF ok] obtain t stored and u :: User where
    t: "token_to_use body cookie = Some t" "t \<noteq> []"
    and v: "validate_refresh_token now t d = Some stored"
    and s: "set_auth_tokens cfg now req (user_id stored) (public_id u) j r
              (snd (revoke_refresh_token now t d)) = (Inr resp, d')"
    by blast
  let ?d1 = "snd (revoke_refresh_token now t d)"
  from set_auth_tokens_Inr(1) [OF s] obtain row where
    st: "store_refresh_token cfg now (user_id stored) r (Some req) True ?d1 = (Inr row, d')"
    by blast
  have stored: "stored \<in> set (refreshtokens d)" "token stored = t"
    using validate_refresh_token_Some [OF v] by simp_all
  have "r \<notin> set (map token (refreshtokens ?d1))"
    using store_refresh_token_Inr(1) [OF st] .
  then have "r \<notin> set (map token (refreshtokens d))"
    by (simp add: refreshtokens_revoke_refresh_token)
  with stored have rt: "r \<noteq> t" by auto
  have "secret_dead t ?d1"
    unfolding secret_dead_def refreshtokens_revoke_refresh_token
  proof (intro ballI impI)
    fix x assume "x \<in> set (revoke_where (\<lambda>r. token r = t) now (refreshtokens d))" "token x = t"
    from revoke_where_fields [OF this(1)] this(2) show "is_revoked x" by auto
  qed
  from secret_dead_store [OF this rt, of cfg now "user_id stored" "Some req" True] st
  have "secret_dead t d'" by simp
  with t show ?thesis by blast
qed

text \<open>
  C1: rotation is single-use. Once \<^verbatim>\<open>refresh_tokens\<close> has succeeded with a secret, every row
  holding that secret is revoked; after any further operations that do not draw the same
  secret again for a new row, a call that presents it (at any time, from any request, by
  cookie or body) fails with \<^verbatim>\<open>NoValidRefreshTokenException\<close> and leaves the database as it
  was. A secret that no row holds fails with the same exception.
\<close>

theorem refresh_single_use:
  assumes ok: "refresh_tokens cfg now req cookie body j r d = (Inr resp, d')"
    and fresh: "\<forall>operation \<in> set ops. drawn_secret operation \<noteq> token_to_use body cookie"
  shows "(\<forall>cookie' body'. token_to_use body' cookie' = token_to_use body cookie \<longrightarrow>
            refresh_tokens cfg' now' req' cookie' body' j' r' (run vp ops d')
              = (Inl NoValidRefreshTokenException, run vp ops d'))
         \<and> (\<forall>t. t \<noteq> [] \<and> t \<notin> set (map token (refreshtokens (run vp ops d'))) \<longrightarrow>
            refresh_tokens cfg' now' req' (Some t) None j' r' (run vp ops d')
              = (Inl NoValidRefreshTokenException, run vp ops d'))"
proof (intro conjI allI impI)
  from refresh_kills_secret [OF ok] obtain t where
    t: "token_to_use body cookie = Some t" "t \<noteq> []" and dead: "secret_dead t d'"
    by blast
  from fresh t(1) have "\<forall>operation \<in> set ops. drawn_secret operation \<noteq> Some t" by simp
  from secret_dead_run [OF dead this, of vp]
  have none: "validate_refresh_token now' t (run vp ops d') = None"
    by (auto simp: validate_refresh_token_None secret_dead_def)
  fix cookie' body'
  assume "token_to_use body' cookie' = token_to_use body cookie"
  with t have "token_to_use body' cookie' = Some t" by simp
  from refresh_tokens_not_active [OF this none] t(2)
  show "refresh_tokens cfg' now' req' cookie' body' j' r' (run vp ops d')
          = (Inl NoValidRefreshTokenException, run vp ops d')"
    by simp
next
  fix t assume t: "t \<noteq> [] \<and> t \<notin> set (map token (refreshtokens (run vp ops d')))"
  then have "validate_refresh_token now' t (run vp ops d') = None"
    by (auto simp: validate_refresh_token_None)
  moreover have "token_to_use None (Some t) = Some t"
    by (simp add: token_to_use_def)
  ultimately show "refresh_tokens cfg' now' req' (Some t) None j' r' (run vp ops d')
          = (Inl NoValidRefreshTokenException, run vp ops d')"
    using t refresh_tokens_not_active [of None "Some t" t now' "run vp ops d'"] by simp
qed

theorem refresh_single_use_witness:
  "refresh_tokens cfg0 2000 req_A (Some ''R1'') None ''j2'' ''R2'' db_one = (Inr resp_rotated, db_rotated)
   \<and> refresh_tokens cfg0 3000 req_B None (Some ''R1'') ''j3'' ''R3'' db_rotated
       = (Inl NoValidRefreshTokenException, db_rotated)
   \<and> refresh_tokens cfg0 3000 req_B (Some ''unknown'') None ''j3'' ''R3'' db_rotated
       = (Inl NoValidRefreshTokenException, db_rotated)
   \<and> map token (refreshtokens (run verify0 ops_between db_rotated)) = [''R2'', ''RB'']
   \<and> refresh_tokens cfg0 3000 req_B None (Some ''R1'') ''j3'' ''R3'' (run verify0 ops_between db_rotated)
       = (Inl NoValidRefreshTokenException, run verify0 ops_between db_rotated)"
proof -
  have ok: "refresh_tokens cfg0 2000 req_A (Some ''R1'') None ''j2'' ''R2'' db_one
              = (Inr resp_rotated, db_rotated)"
    by (simp add: engine_defs example_defs Let_def)
  have same: "token_to_use (Some ''R1'') None = token_to_use None (Some ''R1'')"
    by (simp add: token_to_use_def)
  have unknown: "''unknown'' \<noteq> [] \<and> ''unknown'' \<notin> set (map token (refreshtokens db_rotated))"
    by (simp add: example_defs)
  have none: "\<forall>operation \<in> set []. drawn_secret operation \<noteq> token_to_use None (Some ''R1'')"
    by simp
  have between: "\<forall>operation \<in> set ops_between. drawn_secret operation \<noteq> token_to_use None (Some ''R1'')"
    by (simp add: ops_between_def token_to_use_def)
  have rows: "map token (refreshtokens (run verify0 ops_between db_rotated)) = [''R2'', ''RB'']"
    by (simp add: run_def ops_between_def cleanup_expired_tokens_route_def
          get_current_admin_user_def engine_defs example_defs Let_def)
  have empty: "run verify0 [] db_rotated = db_rotated"
    by (simp add: run_def)
  note now = refresh_single_use [OF ok none, of cfg0 3000 req_B "''j3''" "''R3''" verify0]
  note later = refresh_single_use [OF ok between, of cfg0 3000 req_B "''j3''" "''R3''" verify0]
  from now same unknown have
    "refresh_tokens cfg0 3000 req_B None (Some ''R1'') ''j3'' ''R3'' db_rotated
       = (Inl NoValidRefreshTokenException, db_rotated)"
    "refresh_tokens cfg0 3000 req_B (Some ''unknown'') None ''j3'' ''R3'' db_rotated
       = (Inl NoValidRefreshTokenException, db_rotated)"
    unfolding empty by blast+
  moreover from later same have
    "refresh_tokens cfg0 3000 req_B None (Some ''R1'') ''j3'' ''R3'' (run verify0 ops_between db_rotated)
       = (Inl NoValidRefreshTokenException, run verify0 ops_between db_rotated)"
    by blast
  ultimately show ?thesis using ok rows by blast
qed

subsection \<open>The example states are reachable\<close>

lemma example_logins:
  "auth_user verify0 cfg0 1000 req_A ''alice'' ''secret'' ''j1'' ''R1'' db_init
     = (Inr \<lparr>access_token = \<lparr>sub = Some ''pa'', jti = Some ''j1'', exp = Some 900\<rparr>,
             refresh_token = ''R1'', expires_in = 900\<rparr>, db_one)"
  "auth_user verify0 cfg0 1500 req_B ''alice@example.org'' ''secret'' ''j1'' ''RB'' db_one
     = (Inr \<lparr>access_token = \<lparr>sub = Some ''pa'', jti = Some ''j1'', exp = Some 900\<rparr>,
             refresh_token = ''RB'', expires_in = 900\<rparr>, db_two)"
  by (simp_all add: engine_defs example_defs Let_def)

subsection \<open>What a rotation changes\<close>

lemma revoke_where_twice:
  "revoke_where q now (revoke_where p now rows)
     = revoke_where (\<lambda>x. p x \<or> q (if p x then x\<lparr>updated_at := now, is_revoked := True\<rparr> else x)) now rows"
  by (auto simp: revoke_where_def)

lemma revoke_where_cong:
  "(\<And>x. x \<in> set rows \<Longrightarrow> p x = q x) \<Longrightarrow> revoke_where p now rows = revoke_where q now rows"
  by (auto simp: revoke_where_def)

lemma revoke_where_False: "revoke_where (\<lambda>_. False) now rows = rows"
  by (simp add: revoke_where_def)

lemma rotation_rows:
  assumes ok: "refresh_tokens cfg now req cookie body j r d = (Inr resp, d')"
  shows "\<exists>t stored row. token_to_use body cookie = Some t
           \<and> validate_refresh_token now t d = Some stored
           \<and> refreshtokens d' =
               revoke_where (rotation_touches t (user_id stored) (request_user_agent (Some req)))
                 now (refreshtokens d) @ [row]
           \<and> token row = r \<and> id_col row = refreshtokens_id_seq d"
proof -
  from refresh_tokens_Inr [OF ok] obtain t stored and u :: User where
    t: "token_to_use body cookie = Some t" "t \<noteq> []"
    and v: "validate_refresh_token now t d = Some stored"
    and s: "set_auth_tokens cfg now req (user_id stored) (public_id u) j r
              (snd (revoke_refresh_token now t d)) = (Inr resp, d')"
    by blast
  let ?d1 = "snd (revoke_refresh_token now t d)"
  let ?ua = "request_user_agent (Some req)"
  let ?uid = "user_id stored"
  from set_auth_tokens_Inr(1) [OF s] obtain row where
    st: "store_refresh_token cfg now ?uid r (Some req) True ?d1 = (Inr row, d')"
    by blast
  have seq: "refreshtokens_id_seq ?d1 = refreshtokens_id_seq d"
    by (simp add: revoke_refresh_token_def Let_def)
  have rows: "refreshtokens d' =
     (if truthy ?ua
      then revoke_where (\<lambda>x. user_id x = ?uid \<and> user_agent x = ?ua \<and> \<not> is_revoked x) now
             (revoke_where (\<lambda>x. token x = t) now (refreshtokens d))
      else revoke_where (\<lambda>x. token x = t) now (refreshtokens d)) @ [row]"
    using store_refresh_token_Inr(3) [OF st] by (simp add: refreshtokens_revoke_refresh_token)
  have "(if truthy ?ua
      then revoke_where (\<lambda>x. user_id x = ?uid \<and> user_agent x = ?ua \<and> \<not> is_revoked x) now
             (revoke_where (\<lambda>x. token x = t) now (refreshtokens d))
      else revoke_where (\<lambda>x. token x = t) now (refreshtokens d))
     = revoke_where (rotation_touches t ?uid ?ua) now (refreshtokens d)"
    by (auto simp: revoke_where_twice rotation_touches_def intro!: revoke_where_cong)
  with rows have "refreshtokens d' = revoke_where (rotation_touches t ?uid ?ua) now (refreshtokens d) @ [row]"
    by simp
  moreover have "token row = r" "id_col row = refreshtokens_id_seq d"
    using store_refresh_token_Inr(4) [OF st] seq by simp_all
  ultimately show ?thesis using t v by blast
qed

text \<open>
  C2, as the code has it: \<^verbatim>\<open>set_auth_tokens\<close> calls \<^verbatim>\<open>store_refresh_token\<close> with
  \<^verbatim>\<open>revoke_same_device\<close> at its default \<^verbatim>\<open>True\<close>, so a successful rotation updates the row of
  the presented secret and, when the request carries a non-empty user-agent, every row of the
  same user with that user-agent that was not revoked yet. Each such row gets the flag and
  the stamp; every other row of every user stays as it was, and the new row is appended.
\<close>

theorem rotation_frame:
  assumes ok: "refresh_tokens cfg now req cookie body j r d = (Inr resp, d')"
  shows "\<exists>t stored row. token_to_use body cookie = Some t
           \<and> validate_refresh_token now t d = Some stored
           \<and> refreshtokens d' =
               revoke_where (rotation_touches t (user_id stored) (request_user_agent (Some req)))
                 now (refreshtokens d) @ [row]
           \<and> token row = r
           \<and> (\<forall>x \<in> set (refreshtokens d).
                 \<not> rotation_touches t (user_id stored) (request_user_agent (Some req)) x
                   \<longrightarrow> x \<in> set (refreshtokens d'))
           \<and> (\<forall>x \<in> set (refreshtokens d).
                 rotation_touches t (user_id stored) (request_user_agent (Some req)) x
                   \<longrightarrow> x\<lparr>updated_at := now, is_revoked := True\<rparr> \<in> set (refreshtokens d'))"
proof -
  from rotation_rows [OF ok] obtain t stored row where
    a: "token_to_use body cookie = Some t" "validate_refresh_token now t d = Some stored"
       "refreshtokens d' =
               revoke_where (rotation_touches t (user_id stored) (request_user_agent (Some req)))
                 now (refreshtokens d) @ [row]" "token row = r"
    by blast
  from a(3) have
    "\<forall>x \<in> set (refreshtokens d).
                 \<not> rotation_touches t (user_id stored) (request_user_agent (Some req)) x
                   \<longrightarrow> x \<in> set (refreshtokens d')"
    "\<forall>x \<in> set (refreshtokens d).
                 rotation_touches t (user_id stored) (request_user_agent (Some req)) x
                   \<longrightarrow> x\<lparr>updated_at := now, is_revoked := True\<rparr> \<in> set (refreshtokens d')"
    by (force simp: revoke_where_def)+
  with a show ?thesis by blast
qed

text \<open>
  C2 as stated fails: alice holds a session on device A and one on device B; the token of
  device A is rotated by a request whose user-agent is B. The rotation succeeds, and the
  row of device B, which was not presented, is revoked with it.
\<close>

theorem rotation_revokes_same_device_counterexample:
  "refresh_tokens cfg0 3000 req_B (Some ''R1'') None ''j3'' ''R3'' db_two = (Inr resp_two_rotated, db_two_rotated)
   \<and> row_RB \<in> set (refreshtokens db_two) \<and> token row_RB \<noteq> ''R1''
   \<and> validate_refresh_token 3000 ''RB'' db_two = Some row_RB
   \<and> row_RB \<notin> set (refreshtokens db_two_rotated)
   \<and> validate_refresh_token 3000 ''RB'' db_two_rotated = None"
  by (simp add: engine_defs example_defs Let_def)

theorem rotation_frame_witness:
  "refresh_tokens cfg0 3000 req_B (Some ''R1'') None ''j3'' ''R3'' db_two = (Inr resp_two_rotated, db_two_rotated)
   \<and> refreshtokens db_two_rotated =
       revoke_where (rotation_touches ''R1'' 1 (Some ''B'')) 3000 (refreshtokens db_two)
         @ [last (refreshtokens db_two_rotated)]
   \<and> rotation_touches ''R1'' 1 (Some ''B'') row_R1 
   \<and> rotation_touches ''R1'' 1 (Some ''B'') row_RB"
proof -
  have ok: "refresh_tokens cfg0 3000 req_B (Some ''R1'') None ''j3'' ''R3'' db_two = (Inr resp_two_rotated, db_two_rotated)"
    by (simp add: engine_defs example_defs Let_def)
  have "token_to_use None (Some ''R1'') = Some ''R1''"
       "validate_refresh_token 3000 ''R1'' db_two = Some row_R1"
       "user_id row_R1 = 1" "request_user_agent (Some req_B) = Some ''B''"
    by (simp_all add: engine_defs example_defs)
  with rotation_frame [OF ok] ok
  show ?thesis
    by (auto simp: rotation_touches_def example_defs)
qed

subsection \<open>The owner of a rotated token\<close>







text \<open>
  When the lookup finds a user, it is the one with the token's \<^verbatim>\<open>user_id\<close>, in any database:
  the comparison \<^verbatim>\<open>user.id != stored_token.user_id\<close> never rejects.
\<close>

lemma refresh_owner_check_never_rejects:
  assumes "find_one_or_none (\<lambda>u. id_col u = user_id stored) (users d) = Inr (Some u)"
  shows "id_col u = user_id stored"
proof -
  from assms have "filter (\<lambda>u. id_col u = user_id stored) (users d) = [u]"
    by (auto simp: find_one_or_none_def split: list.splits)
  then have "u \<in> set (filter (\<lambda>u. id_col u = user_id stored) (users d))" by simp
  then show ?thesis by simp
qed

subsection \<open>The constraints between the tables hold in every reachable state\<close>

lemma user_ids_revoke_where [simp]: "map user_id (revoke_where p now rows) = map user_id rows"
  by (simp add: revoke_where_def)

lemma fk_ok_alt:
  "fk_ok d \<longleftrightarrow>
     distinct (map id_col (users d))
     \<and> set (map user_id (refreshtokens d)) \<subseteq> set (map id_col (users d))"
  by (auto simp: fk_ok_def)

lemma fk_ok_revoke_where:
  "fk_ok d \<Longrightarrow> fk_ok (d\<lparr>refreshtokens := revoke_where p now (refreshtokens d)\<rparr>)"
  unfolding fk_ok_alt by simp

lemma fk_ok_filter:
  "fk_ok d \<Longrightarrow> fk_ok (d\<lparr>refreshtokens := filter q (refreshtokens d)\<rparr>)"
  unfolding fk_ok_def by simp

lemma fk_ok_store:
  assumes "fk_ok d"
  shows "fk_ok (snd (store_refresh_token cfg now uid tok req rsd d))"
proof (cases "tok \<in> set (map token (refreshtokens d)) \<or> uid \<notin> set (map id_col (users d))")
  case True
  then have "snd (store_refresh_token cfg now uid tok req rsd d)
               = d\<lparr>refreshtokens_id_seq := refreshtokens_id_seq d + 1\<rparr>"
    by (simp add: store_refresh_token_def Let_def)
  with assms show ?thesis
    unfolding fk_ok_alt by simp
next
  case False
  let ?d' = "snd (store_refresh_token cfg now uid tok req rsd d)"
  from False have uids: "map user_id (refreshtokens ?d') = map user_id (refreshtokens d) @ [uid]"
    and us: "users ?d' = users d"
    by (simp_all add: store_refresh_token_def Let_def)
  from assms False show ?thesis
    unfolding fk_ok_alt uids us by simp
qed

lemma fk_ok_exec: "fk_ok d \<Longrightarrow> fk_ok (exec vp operation d)"
proof (cases operation)
  case (Store cfg now uid tok req rsd)
  assume "fk_ok d"
  with Store show ?thesis by (simp add: fk_ok_store)
next
  case (Login cfg now req eu pw j r)
  assume "fk_ok d"
  with Login show ?thesis
    by (simp add: auth_user_def set_auth_tokens_snd fk_ok_store split: sum.splits option.splits)
next
  case (Refresh cfg now req cookie body j r)
  assume "fk_ok d"
  with Refresh show ?thesis
    by (simp add: refresh_tokens_def set_auth_tokens_snd fk_ok_store revoke_refresh_token_def
          Let_def fk_ok_revoke_where split: sum.splits option.splits)
next
  case (Logout now u cookie all_devices)
  assume "fk_ok d"
  with Logout show ?thesis
    by (simp add: logout_user_def revoke_all_user_refresh_tokens_def revoke_refresh_token_def
          Let_def fk_ok_revoke_where split: option.splits)
next
  case (CleanupRoute now u)
  assume "fk_ok d"
  with CleanupRoute show ?thesis
    by (simp add: cleanup_route_snd cleanup_expired_tokens_def Let_def fk_ok_filter)
next
  case (LimitSessions now m u)
  assume "fk_ok d"
  with LimitSessions show ?thesis
    by (simp add: limit_sessions_snd limit_active_sessions_def Let_def fk_ok_revoke_where)
qed (simp_all add: revoke_refresh_token_def revoke_all_user_refresh_tokens_def
       revoke_session_by_id_def limit_active_sessions_def cleanup_expired_tokens_def
       revoke_session_snd list_active_sessions_def Let_def fk_ok_revoke_where fk_ok_filter)

lemma fk_ok_run: "fk_ok d \<Longrightarrow> fk_ok (run vp ops d)"
  unfolding run_def by (induction ops arbitrary: d) (simp_all add: fk_ok_exec)

lemma fk_ok_init: "fk_ok db_init"
  by (simp add: fk_ok_def db_init_def alice_def bob_def)

subsection \<open>Expiry of an access token\<close>

text \<open>
  C6: \<^verbatim>\<open>get_current_user\<close> converts the \<^verbatim>\<open>exp\<close> claim with \<^verbatim>\<open>int\<close> before it tests
  \<^verbatim>\<open>not expire\<close>. For a token that decodes to claims without \<^verbatim>\<open>exp\<close> it ends in
  \<^verbatim>\<open>TypeError\<close>, not in \<^verbatim>\<open>TokenExpiredException\<close>.
\<close>

theorem get_current_user_missing_exp_crashes:
  "get_current_user (\<lambda>_. Some payload_no_exp) 2000 ''token'' db_one = Inl TypeError
   \<and> status_code TypeError = 500"
  by (simp add: get_current_user_def example_defs)

text \<open>
  Claims with an \<^verbatim>\<open>exp\<close> in the past (and within the range of \<^verbatim>\<open>datetime\<close>) are rejected with
  \<^verbatim>\<open>TokenExpiredException\<close>, whenever the decoder hands them over.
\<close>

lemma get_current_user_expired:
  assumes "jwt_decode tok = Some pl" and "exp pl = Some e"
    and "- 62135596800 \<le> e" and "e \<le> 253402300799" and "e * 1000000 < now"
  shows "get_current_user jwt_decode now tok d = Inl TokenExpiredException"
  using assms by (simp add: get_current_user_def fromtimestamp_def)

subsection \<open>Revoking one session by id\<close>

lemma rowcount_pos: "rowcount p rows > 0 \<longleftrightarrow> (\<exists>r \<in> set rows. p r)"
  by (auto simp: rowcount_def filter_empty_conv)

lemma revoke_where_none: "\<not> (\<exists>r \<in> set rows. p r) \<Longrightarrow> revoke_where p now rows = rows"
  by (induction rows) (auto simp: revoke_where_def)

lemma revoke_session_by_id_fst: "fst (revoke_session_by_id now tid uid d) = owned tid uid d"
  by (auto simp: revoke_session_by_id_def Let_def rowcount_pos owned_def)

lemma revoke_session_by_id_rows:
  "refreshtokens (snd (revoke_session_by_id now tid uid d))
     = revoke_where (\<lambda>r. id_col r = tid \<and> user_id r = uid) now (refreshtokens d)"
  by (simp add: revoke_session_by_id_def Let_def)

lemma revoke_where_again:
  "revoke_where (\<lambda>r. id_col r = tid \<and> user_id r = uid) now'
     (revoke_where (\<lambda>r. id_col r = tid \<and> user_id r = uid) now rows)
   = revoke_where (\<lambda>r. id_col r = tid \<and> user_id r = uid) now' rows"
  by (induction rows) (simp_all add: revoke_where_def)

lemma revoke_session_by_id_twice:
  "snd (revoke_session_by_id now' tid uid (snd (revoke_session_by_id now tid uid d)))
     = snd (revoke_session_by_id now' tid uid d)"
  by (simp add: revoke_session_by_id_def Let_def revoke_where_again)

lemma ex_revoke_where_key:
  "(\<exists>r \<in> set (revoke_where p now rows). id_col r = tid \<and> user_id r = uid)
     = (\<exists>r \<in> set rows. id_col r = tid \<and> user_id r = uid)"
  by (induction rows) (auto simp: revoke_where_def)

lemma owned_revoke_session_by_id:
  "owned tid uid (snd (revoke_session_by_id now tid uid d)) = owned tid uid d"
  by (simp add: owned_def revoke_session_by_id_rows ex_revoke_where_key)

lemma revoke_session_eq:
  "revoke_session n tid u e
     = (if owned tid (id_col u) e then Inr () else Inl NoSessionException,
        snd (revoke_session_by_id n tid (id_col u) e))"
  using revoke_session_by_id_fst [of n tid "id_col u" e]
  by (cases "revoke_session_by_id n tid (id_col u) e") (simp add: revoke_session_def)

lemma revoke_session_unowned:
  "\<not> owned tid uid d \<Longrightarrow> snd (revoke_session_by_id now tid uid d) = d"
  by (simp add: revoke_session_by_id_def Let_def owned_def revoke_where_none)

lemma revoke_session_by_id_revoked:
  "\<forall>r \<in> set (refreshtokens (snd (revoke_session_by_id now tid uid d))).
      id_col r = tid \<and> user_id r = uid \<longrightarrow> is_revoked r"
proof (intro ballI impI)
  fix r
  assume r: "r \<in> set (refreshtokens (snd (revoke_session_by_id now tid uid d)))"
    and k: "id_col r = tid \<and> user_id r = uid"
  from r have "r \<in> set (revoke_where (\<lambda>r. id_col r = tid \<and> user_id r = uid) now (refreshtokens d))"
    by (simp only: revoke_session_by_id_rows)
  from revoke_where_fields [OF this] obtain r0 :: RefreshToken where
    "id_col r = id_col r0" "user_id r = user_id r0"
    "is_revoked r \<longleftrightarrow> is_revoked r0 \<or> (id_col r0 = tid \<and> user_id r0 = uid)"
    by blast
  with k show "is_revoked r" by simp
qed

lemma revoke_session_by_id_stamp:
  "map (\<lambda>r. r\<lparr>updated_at := 0\<rparr>)
      (refreshtokens (snd (revoke_session_by_id now' tid uid (snd (revoke_session_by_id now tid uid d)))))
   = map (\<lambda>r. r\<lparr>updated_at := 0\<rparr>) (refreshtokens (snd (revoke_session_by_id now tid uid d)))"
  unfolding revoke_session_by_id_rows
  by (induction "refreshtokens d" arbitrary: d) (simp_all add: revoke_where_def)


text \<open>
  C10, as the code has it: \<^verbatim>\<open>revoke_session\<close> succeeds exactly when a row with the given id
  belongs to the caller, whether or not that row is revoked already, and raises
  \<^verbatim>\<open>NoSessionException\<close> (leaving the database as it was) otherwise. Afterwards every such row is
  revoked. Repeating the call gives the same result; the state after the repeat is the state
  of a single call made at the time of the repeat, which is the state after the first call up
  to the \<^verbatim>\<open>updated_at\<close> stamp of the matched row.
\<close>

theorem revoke_session_idempotent:
  "revoke_session now tid u d
     = (if owned tid (id_col u) d then Inr () else Inl NoSessionException,
        snd (revoke_session_by_id now tid (id_col u) d))
   \<and> (\<not> owned tid (id_col u) d \<longrightarrow> snd (revoke_session now tid u d) = d)
   \<and> (\<forall>r \<in> set (refreshtokens (snd (revoke_session now tid u d))).
         id_col r = tid \<and> user_id r = id_col u \<longrightarrow> is_revoked r)
   \<and> fst (revoke_session now' tid u (snd (revoke_session now tid u d))) = fst (revoke_session now tid u d)
   \<and> snd (revoke_session now' tid u (snd (revoke_session now tid u d))) = snd (revoke_session now' tid u d)
   \<and> map (\<lambda>r. r\<lparr>updated_at := 0\<rparr>)
        (refreshtokens (snd (revoke_session now' tid u (snd (revoke_session now tid u d)))))
       = map (\<lambda>r. r\<lparr>updated_at := 0\<rparr>) (refreshtokens (snd (revoke_session now tid u d)))"
proof (intro conjI)
  show "revoke_session now tid u d
     = (if owned tid (id_col u) d then Inr () else Inl NoSessionException,
        snd (revoke_session_by_id now tid (id_col u) d))"
    by (rule revoke_session_eq)
  show "\<not> owned tid (id_col u) d \<longrightarrow> snd (revoke_session now tid u d) = d"
    by (simp add: revoke_session_eq revoke_session_unowned)
  show "\<forall>r \<in> set (refreshtokens (snd (revoke_session now tid u d))).
         id_col r = tid \<and> user_id r = id_col u \<longrightarrow> is_revoked r"
    unfolding revoke_session_eq snd_conv by (rule revoke_session_by_id_revoked)
  show "fst (revoke_session now' tid u (snd (revoke_session now tid u d))) = fst (revoke_session now tid u d)"
    unfolding revoke_session_eq fst_conv snd_conv owned_revoke_session_by_id ..
  show "snd (revoke_session now' tid u (snd (revoke_session now tid u d))) = snd (revoke_session now' tid u d)"
    unfolding revoke_session_eq snd_conv by (rule revoke_session_by_id_twice)
  show "map (\<lambda>r. r\<lparr>updated_at := 0\<rparr>)
        (refreshtokens (snd (revoke_session now' tid u (snd (revoke_session now tid u d)))))
       = map (\<lambda>r. r\<lparr>updated_at := 0\<rparr>) (refreshtokens (snd (revoke_session now tid u d)))"
    unfolding revoke_session_eq snd_conv by (rule revoke_session_by_id_stamp)
qed

text \<open>
  C10 as stated fails in its last clause: the UPDATE matches the row again, and
  \<^verbatim>\<open>onupdate=func.now()\<close> moves its \<^verbatim>\<open>updated_at\<close>, so the state after a later repeat is not
  the state after the first call.
\<close>

theorem revoke_session_repeat_counterexample:
  "revoke_session 2000 1 alice db_one
     = (Inr (), db_one\<lparr>refreshtokens := [row_R1\<lparr>updated_at := 2000, is_revoked := True\<rparr>]\<rparr>)
   \<and> revoke_session 3000 1 alice (db_one\<lparr>refreshtokens := [row_R1\<lparr>updated_at := 2000, is_revoked := True\<rparr>]\<rparr>)
       = (Inr (), db_one\<lparr>refreshtokens := [row_R1\<lparr>updated_at := 3000, is_revoked := True\<rparr>]\<rparr>)
   \<and> db_one\<lparr>refreshtokens := [row_R1\<lparr>updated_at := 3000, is_revoked := True\<rparr>]\<rparr>
       \<noteq> db_one\<lparr>refreshtokens := [row_R1\<lparr>updated_at := 2000, is_revoked := True\<rparr>]\<rparr>"
  by (simp add: engine_defs example_defs Let_def)

theorem revoke_session_idempotent_witness:
  "owned 1 (id_col alice) db_rotated
   \<and> is_revoked (hd (refreshtokens db_rotated)) \<and> id_col (hd (refreshtokens db_rotated)) = 1
   \<and> fst (revoke_session 3000 1 alice db_rotated) = Inr ()
   \<and> \<not> owned 1 (id_col bob) db_rotated
   \<and> revoke_session 3000 1 bob db_rotated = (Inl NoSessionException, db_rotated)"
proof -
  have a: "owned 1 (id_col alice) db_rotated" and b: "\<not> owned 1 (id_col bob) db_rotated"
    by (simp_all add: owned_def example_defs)
  have c: "is_revoked (hd (refreshtokens db_rotated))" "id_col (hd (refreshtokens db_rotated)) = 1"
    by (simp_all add: example_defs)
  note t1 = revoke_session_idempotent [of 3000 1 alice db_rotated 4000]
  note t2 = revoke_session_idempotent [of 3000 1 bob db_rotated 4000]
  from t1 [THEN conjunct1] a have d: "fst (revoke_session 3000 1 alice db_rotated) = Inr ()"
    by simp
  from t2 [THEN conjunct2, THEN conjunct1] b
  have e2: "snd (revoke_session 3000 1 bob db_rotated) = db_rotated" by blast
  from t2 [THEN conjunct1] b
  have e1: "fst (revoke_session 3000 1 bob db_rotated) = Inl NoSessionException" by simp
  from e1 e2 have e: "revoke_session 3000 1 bob db_rotated = (Inl NoSessionException, db_rotated)"
    by (simp add: prod_eq_iff)
  from a b c d e show ?thesis by blast
qed

subsection \<open>Logging in twice from one device\<close>

lemma auth_user_Inr:
  assumes "auth_user vp cfg now req eu pw j r d = (Inr resp, d')"
  shows "\<exists>u. authenticate_user vp eu pw d = Inr (Some u)
           \<and> set_auth_tokens cfg now req (id_col u) (public_id u) j r d = (Inr resp, d')"
  using assms by (auto simp: auth_user_def split: sum.splits option.splits)

lemma authenticate_user_users:
  "users d' = users d \<Longrightarrow> authenticate_user vp eu pw d' = authenticate_user vp eu pw d"
  by (simp add: authenticate_user_def)

lemma login_rows:
  assumes l: "auth_user vp cfg now req eu pw j r d = (Inr resp, d')"
    and ua: "request_user_agent (Some req) = Some ua" "ua \<noteq> []"
  shows "\<exists>u row. authenticate_user vp eu pw d = Inr (Some u)
           \<and> refresh_token resp = r
           \<and> r \<notin> set (map token (refreshtokens d))
           \<and> users d' = users d
           \<and> refreshtokens d' =
                revoke_where (\<lambda>x. user_id x = id_col u \<and> user_agent x = Some ua \<and> \<not> is_revoked x)
                  now (refreshtokens d) @ [row]
           \<and> row = \<lparr>id_col = refreshtokens_id_seq d, created_at = now, updated_at = now,
                     user_id = id_col u, token = r,
                     expires_at = now + timedelta_days (REFRESH_TOKEN_EXPIRE_DAYS cfg),
                     is_revoked = False, user_agent = Some ua,
                     ip_address = request_ip_address (Some req)\<rparr>"
proof -
  from auth_user_Inr [OF l] obtain u :: User where
    u: "authenticate_user vp eu pw d = Inr (Some u)"
    and s: "set_auth_tokens cfg now req (id_col u) (public_id u) j r d = (Inr resp, d')"
    by blast
  from set_auth_tokens_Inr [OF s] obtain row where
    st: "store_refresh_token cfg now (id_col u) r (Some req) True d = (Inr row, d')"
    and r: "refresh_token resp = r"
    by blast
  note f = store_refresh_token_Inr [OF st]
  from f(3) ua have "refreshtokens d' =
      revoke_where (\<lambda>x. user_id x = id_col u \<and> user_agent x = Some ua \<and> \<not> is_revoked x)
        now (refreshtokens d) @ [row]"
    by simp
  with u r f(1) f(5) f(4) ua show ?thesis by simp
qed

lemma validate_last_row:
  assumes "\<forall>x \<in> set rows. token x \<noteq> tok" and "token row = tok" and "\<not> is_revoked row"
    and "now < expires_at row"
  shows "validate_refresh_token now tok (d\<lparr>refreshtokens := rows @ [row]\<rparr>) = Some row"
proof -
  from assms(1) have "filter (\<lambda>r. token r = tok \<and> \<not> is_revoked r \<and> expires_at r > now) rows = []"
    by (simp add: filter_empty_conv)
  with assms(2-4) show ?thesis
    by (simp add: validate_refresh_token_def)
qed

lemma validate_refresh_token_cong:
  "refreshtokens d = refreshtokens e \<Longrightarrow> validate_refresh_token now tok d = validate_refresh_token now tok e"
  by (simp add: validate_refresh_token_def)

text \<open>
  C4, as the code has it: the guard of the same-device UPDATE is \<^verbatim>\<open>revoke_same_device and
  user_agent\<close>, the truth value of the string. On a login whose user-agent is present and not
  empty, every row of the same user with that user-agent is revoked in the table the new row
  is appended to. In particular, of two successful logins in succession with the same
  credentials and the same non-empty user-agent, the first token (active until then, unless
  it has expired) is no longer found active at any time, while the second one is found
  active until it expires.
\<close>

theorem login_same_device:
  assumes ua: "request_user_agent (Some req1) = Some ua" "request_user_agent (Some req2) = Some ua"
      "ua \<noteq> []"
    and l1: "auth_user vp cfg now1 req1 eu pw j1 r1 d0 = (Inr resp1, d1)"
    and l2: "auth_user vp cfg now2 req2 eu pw j2 r2 d1 = (Inr resp2, d2)"
  shows "refresh_token resp1 = r1 \<and> refresh_token resp2 = r2
     \<and> (now2 < now1 + timedelta_days (REFRESH_TOKEN_EXPIRE_DAYS cfg) \<longrightarrow>
           (\<exists>row1. validate_refresh_token now2 r1 d1 = Some row1))
     \<and> (\<forall>now'. validate_refresh_token now' r1 d2 = None)
     \<and> (\<forall>now'. now' < now2 + timedelta_days (REFRESH_TOKEN_EXPIRE_DAYS cfg) \<longrightarrow>
           (\<exists>row. validate_refresh_token now' r2 d2 = Some row \<and> token row = r2))
     \<and> (\<exists>u. authenticate_user vp eu pw d1 = Inr (Some u)
           \<and> (\<forall>x \<in> set (refreshtokens d1). user_id x = id_col u \<and> user_agent x = Some ua \<longrightarrow>
                 (\<exists>x' \<in> set (refreshtokens d2).
                    id_col x' = id_col x \<and> token x' = token x \<and> is_revoked x')))"
proof -
  let ?days = "timedelta_days (REFRESH_TOKEN_EXPIRE_DAYS cfg)"
  from login_rows [OF l1 ua(1,3)] obtain u1 :: User and row1 where
    a1: "authenticate_user vp eu pw d0 = Inr (Some u1)" "refresh_token resp1 = r1"
        "r1 \<notin> set (map token (refreshtokens d0))" "users d1 = users d0"
    and rows1: "refreshtokens d1 =
                revoke_where (\<lambda>x. user_id x = id_col u1 \<and> user_agent x = Some ua \<and> \<not> is_revoked x)
                  now1 (refreshtokens d0) @ [row1]"
    and row1: "token row1 = r1" "user_id row1 = id_col u1" "user_agent row1 = Some ua"
        "\<not> is_revoked row1" "expires_at row1 = now1 + ?days" "id_col row1 = refreshtokens_id_seq d0"
    by auto
  from login_rows [OF l2 ua(2,3)] obtain u2 :: User and row2 where
    a2: "authenticate_user vp eu pw d1 = Inr (Some u2)" "refresh_token resp2 = r2"
        "r2 \<notin> set (map token (refreshtokens d1))" "users d2 = users d1"
    and rows2: "refreshtokens d2 =
                revoke_where (\<lambda>x. user_id x = id_col u2 \<and> user_agent x = Some ua \<and> \<not> is_revoked x)
                  now2 (refreshtokens d1) @ [row2]"
    and row2: "token row2 = r2" "user_id row2 = id_col u2" "user_agent row2 = Some ua"
        "\<not> is_revoked row2" "expires_at row2 = now2 + ?days"
    by auto
  let ?p1 = "\<lambda>x. user_id x = id_col u1 \<and> user_agent x = Some ua \<and> \<not> is_revoked x"
  let ?p2 = "\<lambda>x. user_id x = id_col u2 \<and> user_agent x = Some ua \<and> \<not> is_revoked x"
  from a1(1) a2(1) authenticate_user_users [OF a1(4), of vp eu pw] have same: "u2 = u1"
    by simp
  \<comment> \<open>the first token is the secret of the new row only\<close>
  have old1: "\<forall>x \<in> set (revoke_where ?p1 now1 (refreshtokens d0)). token x \<noteq> r1"
  proof
    fix x assume "x \<in> set (revoke_where ?p1 now1 (refreshtokens d0))"
    then have "token x \<in> set (map token (revoke_where ?p1 now1 (refreshtokens d0)))"
      by (simp del: map_token_revoke_where)
    with a1(3) show "token x \<noteq> r1" by auto
  qed
  have active1: "now2 < now1 + ?days \<Longrightarrow> validate_refresh_token now2 r1 d1 = Some row1"
  proof -
    assume "now2 < now1 + ?days"
    with validate_last_row [OF old1 row1(1) row1(4), of now2 d1] row1(5) rows1
      validate_refresh_token_cong [of "d1\<lparr>refreshtokens := revoke_where ?p1 now1 (refreshtokens d0) @ [row1]\<rparr>" d1 now2 r1]
    show ?thesis by simp
  qed
  have r12: "r2 \<noteq> r1"
    using a2(3) rows1 row1(1) by auto
  have gone: "validate_refresh_token now' r1 d2 = None" for now'
  proof -
    have "is_revoked x" if x: "x \<in> set (refreshtokens d2)" "token x = r1" for x
    proof -
      from x rows2 row2(1) r12 have "x \<in> set (revoke_where ?p2 now2 (refreshtokens d1))"
        by auto
      from revoke_where_fields [OF this] obtain y :: RefreshToken where
        y: "y \<in> set (refreshtokens d1)" "token x = token y" "is_revoked x \<longleftrightarrow> is_revoked y \<or> ?p2 y"
        by blast
      from y(1,2) x(2) rows1 old1 have "y = row1" by auto
      with y(3) row1 same show ?thesis by auto
    qed
    then show ?thesis by (auto simp: validate_refresh_token_None)
  qed
  have old2: "\<forall>x \<in> set (revoke_where ?p2 now2 (refreshtokens d1)). token x \<noteq> r2"
  proof
    fix x assume "x \<in> set (revoke_where ?p2 now2 (refreshtokens d1))"
    then have "token x \<in> set (map token (revoke_where ?p2 now2 (refreshtokens d1)))"
      by (simp del: map_token_revoke_where)
    with a2(3) show "token x \<noteq> r2" by auto
  qed
  have active2: "validate_refresh_token now' r2 d2 = Some row2" if "now' < now2 + ?days" for now'
    using validate_last_row [OF old2 row2(1) row2(4), of now' d2] row2(5) rows2 that
      validate_refresh_token_cong [of "d2\<lparr>refreshtokens := revoke_where ?p2 now2 (refreshtokens d1) @ [row2]\<rparr>" d2 now' r2]
    by simp
  have device: "\<exists>x' \<in> set (refreshtokens d2). id_col x' = id_col x \<and> token x' = token x \<and> is_revoked x'"
    if x: "x \<in> set (refreshtokens d1)" "user_id x = id_col u2 \<and> user_agent x = Some ua" for x
  proof -
    let ?x' = "if ?p2 x then x\<lparr>updated_at := now2, is_revoked := True\<rparr> else x"
    from x(1) have "?x' \<in> set (revoke_where ?p2 now2 (refreshtokens d1))"
      by (simp add: revoke_where_def)
    then have "?x' \<in> set (refreshtokens d2)" by (simp add: rows2)
    moreover from x(2) have "id_col ?x' = id_col x \<and> token ?x' = token x \<and> is_revoked ?x'"
      by simp
    ultimately show ?thesis by blast
  qed
  from active1 have first: "now2 < now1 + ?days \<longrightarrow> (\<exists>row1. validate_refresh_token now2 r1 d1 = Some row1)"
    by blast
  from a1(2) a2(2) first gone active2 row2(1) a2(1) device show ?thesis
    by blast
qed

text \<open>
  C4 as stated fails for a device fingerprint that is not null but empty: the guard is false,
  no row is revoked, and after the second login the first token is still active.
\<close>

theorem login_blank_device_counterexample:
  "request_user_agent (Some req_blank) = Some []
   \<and> auth_user verify0 cfg0 1000 req_blank ''alice'' ''secret'' ''j1'' ''R1'' db_init
        = (Inr resp_one, db_blank)
   \<and> auth_user verify0 cfg0 2000 req_blank ''alice'' ''secret'' ''j2'' ''R2'' db_blank
        = (Inr resp_rotated, db_blank_again)
   \<and> validate_refresh_token 2000 ''R1'' db_blank_again = Some row_blank
   \<and> user_agent row_blank = request_user_agent (Some req_blank)"
  by (simp add: engine_defs example_defs Let_def)

theorem login_same_device_witness:
  "auth_user verify0 cfg0 1000 req_A ''alice'' ''secret'' ''j1'' ''R1'' db_init = (Inr resp_one, db_one)
   \<and> auth_user verify0 cfg0 2000 req_A ''alice'' ''secret'' ''j2'' ''R2'' db_one
        = (Inr resp_rotated, db_rotated)
   \<and> validate_refresh_token 2000 ''R1'' db_one = Some row_R1
   \<and> validate_refresh_token 2000 ''R1'' db_rotated = None
   \<and> (\<exists>row. validate_refresh_token 3000 ''R2'' db_rotated = Some row \<and> token row = ''R2'')"
proof -
  have ua: "request_user_agent (Some req_A) = Some ''A''" "''A'' \<noteq> []"
    by (simp_all add: request_user_agent_def req_A_def)
  have l1: "auth_user verify0 cfg0 1000 req_A ''alice'' ''secret'' ''j1'' ''R1'' db_init
              = (Inr resp_one, db_one)"
    by (simp add: engine_defs example_defs Let_def)
  have l2: "auth_user verify0 cfg0 2000 req_A ''alice'' ''secret'' ''j2'' ''R2'' db_one
              = (Inr resp_rotated, db_rotated)"
    by (simp add: engine_defs example_defs Let_def)
  have t: "(3000::int) < 2000 + timedelta_days (REFRESH_TOKEN_EXPIRE_DAYS cfg0)"
    by (simp add: timedelta_days_def cfg0_def)
  have v: "validate_refresh_token 2000 ''R1'' db_one = Some row_R1"
    by (simp add: validate_refresh_token_def example_defs)
  note both = login_same_device [OF ua(1) ua(1) ua(2) l1 l2]
  from both have "validate_refresh_token 2000 ''R1'' db_rotated = None" by blast
  moreover from both t have "\<exists>row. validate_refresh_token 3000 ''R2'' db_rotated = Some row \<and> token row = ''R2''"
    by blast
  ultimately show ?thesis using l1 l2 v by blast
qed

subsection \<open>Capping the active sessions\<close>

lemma get_active_session_tokens_alt:
  "get_active_session_tokens now uid d
     = sort_key (\<lambda>r. - created_at r) (filter (is_active_of now uid) (refreshtokens d))"
proof -
  have "is_active_of now uid = (\<lambda>r. user_id r = uid \<and> \<not> is_revoked r \<and> expires_at r > now)"
    by (simp add: is_active_of_def fun_eq_iff)
  then show ?thesis by (simp add: get_active_session_tokens_def)
qed

lemma set_get_active_session_tokens:
  "set (get_active_session_tokens now uid d) = {r \<in> set (refreshtokens d). is_active_of now uid r}"
  by (simp add: get_active_session_tokens_alt)

lemma distinct_ids_active:
  assumes "distinct (map id_col (refreshtokens d))"
  shows "distinct (map id_col (get_active_session_tokens now uid d))"
proof -
  from assms have "distinct (refreshtokens d)" "inj_on id_col (set (refreshtokens d))"
    by (simp_all add: distinct_map)
  then have "distinct (get_active_session_tokens now uid d)"
    and "inj_on id_col (set (get_active_session_tokens now uid d))"
    by (auto simp: get_active_session_tokens_alt intro: inj_on_subset)
  then show ?thesis by (simp add: distinct_map)
qed

lemma newest_first:
  "sorted (map (\<lambda>r. - created_at r) (get_active_session_tokens now uid d))"
  by (simp add: get_active_session_tokens_alt)

lemma take_newer_than_drop:
  assumes "a \<in> set (take n (get_active_session_tokens now uid d))"
    and "b \<in> set (drop n (get_active_session_tokens now uid d))"
  shows "created_at b \<le> created_at a"
proof -
  let ?act = "get_active_session_tokens now uid d"
  have "sorted (map (\<lambda>r. - created_at r) (take n ?act @ drop n ?act))"
    using newest_first [of now uid d] by simp
  then have "\<forall>x \<in> set (take n ?act). \<forall>y \<in> set (drop n ?act). - created_at x \<le> - created_at y"
    unfolding map_append sorted_append by auto
  with assms show ?thesis by auto
qed

lemma filter_active_revoke_where:
  "filter (is_active_of now uid) (revoke_where p now' rows)
     = filter (\<lambda>r. \<not> p r) (filter (is_active_of now uid) rows)"
  by (induction rows) (simp_all add: revoke_where_def is_active_of_def)

lemma filter_not_dropped:
  assumes "distinct (map id_col xs)"
  shows "filter (\<lambda>r. id_col r \<notin> set (map id_col (drop n xs))) xs = take n xs"
proof -
  from assms have "distinct (map id_col (take n xs @ drop n xs))" by simp
  then have d: "set (map id_col (take n xs)) \<inter> set (map id_col (drop n xs)) = {}"
    unfolding map_append distinct_append by blast
  have "filter (\<lambda>r. id_col r \<notin> set (map id_col (drop n xs))) (take n xs @ drop n xs)
          = take n xs"
    unfolding filter_append
  proof -
    have "filter (\<lambda>r. id_col r \<notin> set (map id_col (drop n xs))) (take n xs) = take n xs"
      using d by (intro filter_True) auto
    moreover have "filter (\<lambda>r. id_col r \<notin> set (map id_col (drop n xs))) (drop n xs) = []"
      by (simp add: filter_empty_conv)
    ultimately show "filter (\<lambda>r. id_col r \<notin> set (map id_col (drop n xs))) (take n xs)
        @ filter (\<lambda>r. id_col r \<notin> set (map id_col (drop n xs))) (drop n xs) = take n xs"
      by simp
  qed
  then show ?thesis by simp
qed

lemma active_after_revoking_dropped:
  assumes pk: "distinct (map id_col (refreshtokens d))"
  shows "get_active_session_tokens now uid
           (d\<lparr>refreshtokens :=
                revoke_where (\<lambda>r. id_col r \<in> set (map id_col (drop n (get_active_session_tokens now uid d))))
                  now' (refreshtokens d)\<rparr>)
         = take n (get_active_session_tokens now uid d)"
proof -
  let ?act = "get_active_session_tokens now uid d"
  let ?f = "\<lambda>r. - created_at r"
  let ?keep = "\<lambda>r. id_col r \<notin> set (map id_col (drop n ?act))"
  have "get_active_session_tokens now uid
           (d\<lparr>refreshtokens := revoke_where (\<lambda>r. \<not> ?keep r) now' (refreshtokens d)\<rparr>)
        = sort_key ?f (filter ?keep (filter (is_active_of now uid) (refreshtokens d)))"
    by (simp add: get_active_session_tokens_alt filter_active_revoke_where)
  also have "\<dots> = filter ?keep ?act"
    by (simp only: get_active_session_tokens_alt filter_sort)
  also have "\<dots> = take n ?act"
    by (rule filter_not_dropped [OF distinct_ids_active [OF pk]])
  finally show ?thesis by simp
qed

lemma rowcount_ids:
  assumes pk: "distinct (map id_col rows)"
    and sub: "set xs \<subseteq> set rows" and dx: "distinct (map id_col xs)"
  shows "rowcount (\<lambda>r. id_col r \<in> set (map id_col xs)) rows = int (length xs)"
proof -
  from pk have dr: "distinct rows" and inj: "inj_on id_col (set rows)"
    by (simp_all add: distinct_map)
  have "{r. id_col r \<in> set (map id_col xs)} \<inter> set rows = set xs"
  proof (intro equalityI subsetI)
    fix r assume "r \<in> {r. id_col r \<in> set (map id_col xs)} \<inter> set rows"
    then obtain x where x: "x \<in> set xs" "id_col r = id_col x" and r: "r \<in> set rows" by auto
    with sub inj have "r = x" by (auto dest: inj_onD)
    with x show "r \<in> set xs" by simp
  next
    fix r assume "r \<in> set xs"
    with sub show "r \<in> {r. id_col r \<in> set (map id_col xs)} \<inter> set rows" by auto
  qed
  then have "length (filter (\<lambda>r. id_col r \<in> set (map id_col xs)) rows) = card (set xs)"
    by (simp add: distinct_length_filter [OF dr])
  also from dx have "\<dots> = length xs"
    by (simp add: distinct_card distinct_map)
  finally show ?thesis by (simp add: rowcount_def)
qed

lemma limit_active_sessions_eq:
  assumes pk: "distinct (map id_col (refreshtokens d))" and m: "0 \<le> m"
  shows "limit_active_sessions now uid m d
           = (int (length (drop (nat m) (get_active_session_tokens now uid d))),
              d\<lparr>refreshtokens :=
                  revoke_where
                    (\<lambda>r. id_col r \<in> set (map id_col (drop (nat m) (get_active_session_tokens now uid d))))
                    now (refreshtokens d)\<rparr>)"
proof (cases "int (length (get_active_session_tokens now uid d)) > m")
  case True
  let ?act = "get_active_session_tokens now uid d"
  have sub: "set (drop (nat m) ?act) \<subseteq> set (refreshtokens d)"
    using set_drop_subset [of "nat m" ?act] by (auto simp: set_get_active_session_tokens)
  have dx: "distinct (map id_col (drop (nat m) ?act))"
    using distinct_ids_active [OF pk, of now uid] by (simp add: distinct_drop drop_map [symmetric])
  from True m rowcount_ids [OF pk sub dx] show ?thesis
    by (simp add: limit_active_sessions_def Let_def slice_from_def)
next
  case False
  then have "drop (nat m) (get_active_session_tokens now uid d) = []"
    using m by simp
  with False show ?thesis
    by (simp add: limit_active_sessions_def Let_def revoke_where_def)
qed

lemma revoke_where_dropped_rows:
  assumes pk: "distinct (map id_col (refreshtokens d))"
  shows "revoke_where (\<lambda>r. id_col r \<in> set (map id_col (drop n (get_active_session_tokens now uid d))))
           now' (refreshtokens d)
         = revoke_where (\<lambda>r. r \<in> set (drop n (get_active_session_tokens now uid d)))
           now' (refreshtokens d)"
proof (rule revoke_where_cong)
  fix x assume x: "x \<in> set (refreshtokens d)"
  let ?dr = "drop n (get_active_session_tokens now uid d)"
  from pk have inj: "inj_on id_col (set (refreshtokens d))"
    by (simp add: distinct_map)
  have sub: "set ?dr \<subseteq> set (refreshtokens d)"
    using set_drop_subset [of n "get_active_session_tokens now uid d"]
    by (auto simp: set_get_active_session_tokens)
  show "(id_col x \<in> set (map id_col ?dr)) = (x \<in> set ?dr)"
  proof
    assume "id_col x \<in> set (map id_col ?dr)"
    then obtain y where y: "y \<in> set ?dr" "id_col x = id_col y" by auto
    with sub x inj have "x = y" by (auto dest: inj_onD)
    with y show "x \<in> set ?dr" by simp
  qed auto
qed

text \<open>
  C5: with the primary key in force (no two rows share an id), \<^verbatim>\<open>limit_sessions\<close> with a
  maximum of at least 1 revokes exactly the active sessions of the user that come after the
  first \<^verbatim>\<open>max_sessions\<close> in the newest-first listing, and returns how many they are. The
  listing afterwards is the first \<^verbatim>\<open>max_sessions\<close> entries of the listing before (all of it
  when it was no longer), no kept session is older than a revoked one, and every other row of
  the table is as it was. A maximum below 1 is rejected with \<^verbatim>\<open>MaxSessionsException\<close> and the
  database is as it was.
\<close>

theorem cap_sessions:
  assumes pk: "distinct (map id_col (refreshtokens d))"
  shows "(max_sessions < 1 \<longrightarrow> limit_sessions now max_sessions u d = (Inl MaxSessionsException, d))
     \<and> (1 \<le> max_sessions \<longrightarrow>
          fst (limit_sessions now max_sessions u d)
            = Inr (int (length (drop (nat max_sessions) (get_active_session_tokens now (id_col u) d))))
          \<and> get_active_session_tokens now (id_col u) (snd (limit_sessions now max_sessions u d))
            = take (nat max_sessions) (get_active_session_tokens now (id_col u) d)
          \<and> refreshtokens (snd (limit_sessions now max_sessions u d))
            = revoke_where (\<lambda>r. r \<in> set (drop (nat max_sessions) (get_active_session_tokens now (id_col u) d)))
                now (refreshtokens d)
          \<and> (\<forall>a \<in> set (take (nat max_sessions) (get_active_session_tokens now (id_col u) d)).
              \<forall>b \<in> set (drop (nat max_sessions) (get_active_session_tokens now (id_col u) d)).
                created_at b \<le> created_at a)
          \<and> (\<forall>r \<in> set (refreshtokens d).
                r \<notin> set (drop (nat max_sessions) (get_active_session_tokens now (id_col u) d))
                  \<longrightarrow> r \<in> set (refreshtokens (snd (limit_sessions now max_sessions u d))))
          \<and> users (snd (limit_sessions now max_sessions u d)) = users d
          \<and> refreshtokens_id_seq (snd (limit_sessions now max_sessions u d)) = refreshtokens_id_seq d)"
proof (intro conjI impI)
  show "limit_sessions now max_sessions u d = (Inl MaxSessionsException, d)" if "max_sessions < 1"
    using that by (simp add: limit_sessions_def)
next
  assume m: "1 \<le> max_sessions"
  let ?act = "get_active_session_tokens now (id_col u) d"
  let ?n = "nat max_sessions"
  let ?d' = "d\<lparr>refreshtokens :=
                  revoke_where (\<lambda>r. id_col r \<in> set (map id_col (drop ?n ?act))) now (refreshtokens d)\<rparr>"
  from m have m0: "0 \<le> max_sessions" by simp
  have ls: "limit_sessions now max_sessions u d = (Inr (int (length (drop ?n ?act))), ?d')"
    using m limit_active_sessions_eq [OF pk m0, of now "id_col u"]
    by (simp add: limit_sessions_def)
  show "fst (limit_sessions now max_sessions u d) = Inr (int (length (drop ?n ?act)))"
    by (simp add: ls)
  show "get_active_session_tokens now (id_col u) (snd (limit_sessions now max_sessions u d)) = take ?n ?act"
    unfolding ls snd_conv by (rule active_after_revoking_dropped [OF pk])
  show rows: "refreshtokens (snd (limit_sessions now max_sessions u d))
            = revoke_where (\<lambda>r. r \<in> set (drop ?n ?act)) now (refreshtokens d)"
    unfolding ls snd_conv using revoke_where_dropped_rows [OF pk, of ?n now "id_col u" now]
    by simp
  show "\<forall>a \<in> set (take ?n ?act). \<forall>b \<in> set (drop ?n ?act). created_at b \<le> created_at a"
    using take_newer_than_drop by blast
  show "\<forall>r \<in> set (refreshtokens d).
          r \<notin> set (drop ?n ?act) \<longrightarrow> r \<in> set (refreshtokens (snd (limit_sessions now max_sessions u d)))"
    unfolding rows by (force simp: revoke_where_def)
  show "users (snd (limit_sessions now max_sessions u d)) = users d"
    by (simp add: ls)
  show "refreshtokens_id_seq (snd (limit_sessions now max_sessions u d)) = refreshtokens_id_seq d"
    by (simp add: ls)
qed

theorem cap_sessions_witness:
  "distinct (map id_col (refreshtokens db_six))
   \<and> limit_sessions 9000 3 alice db_six = (Inr 3, db_six_capped)
   \<and> get_active_session_tokens 9000 (id_col alice) db_six_capped
       = [session_row 6 1, session_row 5 1, session_row 4 1]
   \<and> limit_sessions 9000 0 alice db_six = (Inl MaxSessionsException, db_six)
   \<and> session_row 7 2 \<in> set (refreshtokens db_six_capped)"
proof -
  have pk: "distinct (map id_col (refreshtokens db_six))"
    by (simp add: example_defs)
  have act: "get_active_session_tokens 9000 (id_col alice) db_six
     = [session_row 6 1, session_row 5 1, session_row 4 1, session_row 3 1, session_row 2 1,
        session_row 1 1]"
    by (simp add: get_active_session_tokens_def example_defs)
  have run: "limit_sessions 9000 3 alice db_six = (Inr 3, db_six_capped)"
    by (simp add: limit_sessions_def limit_active_sessions_def get_active_session_tokens_def
        slice_from_def revoke_where_def rowcount_def Let_def example_defs)
  note cap3 = cap_sessions [OF pk, of 3 9000 alice]
  note cap0 = cap_sessions [OF pk, of 0 9000 alice]
  from cap3 have "get_active_session_tokens 9000 (id_col alice) (snd (limit_sessions 9000 3 alice db_six))
       = take (nat 3) (get_active_session_tokens 9000 (id_col alice) db_six)"
    by simp
  then have kept: "get_active_session_tokens 9000 (id_col alice) db_six_capped
       = [session_row 6 1, session_row 5 1, session_row 4 1]"
    by (simp add: run act)
  from cap0 have rej: "limit_sessions 9000 0 alice db_six = (Inl MaxSessionsException, db_six)"
    by simp
  have other: "session_row 7 2 \<in> set (refreshtokens db_six_capped)"
    by (simp add: example_defs)
  from pk run kept rej other show ?thesis by blast
qed

subsection \<open>Revocation is monotonic\<close>

lemma stays_revoked_rows:
  assumes "stays_revoked i d"
    and "\<forall>x \<in> set rows. \<exists>y \<in> set (refreshtokens d). id_col x = id_col y \<and> (is_revoked y \<longrightarrow> is_revoked x)"
  shows "stays_revoked i (d\<lparr>refreshtokens := rows\<rparr>)"
  using assms unfolding stays_revoked_def by (simp, metis)

lemma revoke_where_sub:
  "\<forall>x \<in> set (revoke_where p now rows).
      \<exists>y \<in> set rows. id_col x = id_col y \<and> (is_revoked y \<longrightarrow> is_revoked x)"
proof
  fix x assume "x \<in> set (revoke_where p now rows)"
  from revoke_where_fields [OF this] obtain y :: RefreshToken where
    "y \<in> set rows" "id_col x = id_col y" "is_revoked x \<longleftrightarrow> is_revoked y \<or> p y"
    by blast
  then show "\<exists>y \<in> set rows. id_col x = id_col y \<and> (is_revoked y \<longrightarrow> is_revoked x)"
    by blast
qed

lemma stays_revoked_revoke_where:
  "stays_revoked i d \<Longrightarrow> stays_revoked i (d\<lparr>refreshtokens := revoke_where p now (refreshtokens d)\<rparr>)"
  by (rule stays_revoked_rows [OF _ revoke_where_sub])

lemma stays_revoked_filter:
  "stays_revoked i d \<Longrightarrow> stays_revoked i (d\<lparr>refreshtokens := filter q (refreshtokens d)\<rparr>)"
  by (rule stays_revoked_rows) auto

lemma stays_revoked_store:
  assumes "stays_revoked i d"
  shows "stays_revoked i (snd (store_refresh_token cfg now uid tok req rsd d))"
proof (cases "tok \<in> set (map token (refreshtokens d)) \<or> uid \<notin> set (map id_col (users d))")
  case True
  with assms show ?thesis
    by (simp add: store_refresh_token_def Let_def stays_revoked_def)
next
  case False
  let ?rows = "if rsd \<and> truthy (request_user_agent req)
               then revoke_where (\<lambda>r. user_id r = uid \<and> user_agent r = request_user_agent req \<and> \<not> is_revoked r)
                      now (refreshtokens d)
               else refreshtokens d"
  have old: "\<forall>x \<in> set ?rows. id_col x = i \<longrightarrow> is_revoked x"
  proof (cases "rsd \<and> truthy (request_user_agent req)")
    case True
    with stays_revoked_revoke_where [OF assms] show ?thesis
      by (simp add: stays_revoked_def)
  next
    case False
    with assms show ?thesis by (auto simp: stays_revoked_def)
  qed
  from assms have "i < refreshtokens_id_seq d" by (simp add: stays_revoked_def)
  with False old show ?thesis
    by (auto simp: store_refresh_token_def Let_def stays_revoked_def)
qed

lemma stays_revoked_revoke_refresh_token:
  "stays_revoked i d \<Longrightarrow> stays_revoked i (snd (revoke_refresh_token now tok d))"
  by (simp add: revoke_refresh_token_def Let_def stays_revoked_revoke_where)

lemma stays_revoked_revoke_all:
  "stays_revoked i d \<Longrightarrow> stays_revoked i (snd (revoke_all_user_refresh_tokens now uid d))"
  by (simp add: revoke_all_user_refresh_tokens_def Let_def stays_revoked_revoke_where)

lemma stays_revoked_revoke_session_by_id:
  "stays_revoked i d \<Longrightarrow> stays_revoked i (snd (revoke_session_by_id now tid uid d))"
  by (simp add: revoke_session_by_id_def Let_def stays_revoked_revoke_where)

lemma stays_revoked_limit_active_sessions:
  "stays_revoked i d \<Longrightarrow> stays_revoked i (snd (limit_active_sessions now uid m d))"
  by (simp add: limit_active_sessions_def Let_def stays_revoked_revoke_where)

lemma stays_revoked_cleanup:
  "stays_revoked i d \<Longrightarrow> stays_revoked i (snd (cleanup_expired_tokens now d))"
  by (simp add: cleanup_expired_tokens_def Let_def stays_revoked_filter)

lemma stays_revoked_set_auth_tokens:
  "stays_revoked i d \<Longrightarrow> stays_revoked i (snd (set_auth_tokens cfg now req uid pid j r d))"
  by (simp add: set_auth_tokens_snd stays_revoked_store)

lemma stays_revoked_auth_user:
  "stays_revoked i d \<Longrightarrow> stays_revoked i (snd (auth_user vp cfg now req eu pw j r d))"
  by (simp add: auth_user_def stays_revoked_set_auth_tokens split: sum.splits option.splits)

lemma stays_revoked_refresh_tokens:
  "stays_revoked i d \<Longrightarrow> stays_revoked i (snd (refresh_tokens cfg now req cookie body j r d))"
  by (simp add: refresh_tokens_def stays_revoked_set_auth_tokens stays_revoked_revoke_refresh_token
        split: sum.splits option.splits)

lemma stays_revoked_logout_user:
  "stays_revoked i d \<Longrightarrow> stays_revoked i (snd (logout_user now u cookie all_devices d))"
  by (simp add: logout_user_def stays_revoked_revoke_all stays_revoked_revoke_refresh_token
        split: option.splits)

lemma stays_revoked_exec:
  "stays_revoked i d \<Longrightarrow> stays_revoked i (exec vp operation d)"
proof (cases operation)
  case (Store cfg now uid tok req rsd)
  assume "stays_revoked i d"
  with Store show ?thesis by (simp add: stays_revoked_store)
next
  case (Login cfg now req eu pw j r)
  assume "stays_revoked i d"
  with Login show ?thesis by (simp add: stays_revoked_auth_user)
next
  case (Refresh cfg now req cookie body j r)
  assume "stays_revoked i d"
  with Refresh show ?thesis by (simp add: stays_revoked_refresh_tokens)
next
  case (Logout now u cookie all_devices)
  assume "stays_revoked i d"
  with Logout show ?thesis by (simp add: stays_revoked_logout_user)
next
  case (CleanupRoute now u)
  assume "stays_revoked i d"
  with CleanupRoute show ?thesis by (simp add: cleanup_route_snd stays_revoked_cleanup)
next
  case (LimitSessions now m u)
  assume "stays_revoked i d"
  with LimitSessions show ?thesis by (simp add: limit_sessions_snd stays_revoked_limit_active_sessions)
qed (simp_all add: stays_revoked_revoke_refresh_token stays_revoked_revoke_all
       stays_revoked_revoke_session_by_id stays_revoked_limit_active_sessions
       stays_revoked_cleanup revoke_session_snd list_active_sessions_def)

lemma stays_revoked_run:
  "stays_revoked i d \<Longrightarrow> stays_revoked i (run vp ops d)"
  unfolding run_def by (induction ops arbitrary: d) (simp_all add: stays_revoked_exec)

text \<open>
  C3: in a table that satisfies its constraints, take a row that is revoked. After any
  sequence of operations (store, validate, revoke by secret, revoke all, revoke by id, list,
  cap, cleanup, and the routes login, refresh, logout, revoke session, limit sessions and
  cleanup), every row with that id is still revoked, so neither \<^verbatim>\<open>validate_refresh_token\<close> nor
  the listing of active sessions returns it, at any time and for any secret. (The cleanup
  may delete the row; ids come from the sequence and are not given out again.)
\<close>

theorem revocation_monotonic:
  assumes wf: "wf_db d" and r: "r \<in> set (refreshtokens d)" "is_revoked r"
  shows "(\<forall>x \<in> set (refreshtokens (run vp ops d)). id_col x = id_col r \<longrightarrow> is_revoked x)
       \<and> (\<forall>now tok x. validate_refresh_token now tok (run vp ops d) = Some x \<longrightarrow> id_col x \<noteq> id_col r)
       \<and> (\<forall>now uid. \<forall>x \<in> set (get_active_session_tokens now uid (run vp ops d)). id_col x \<noteq> id_col r)"
proof -
  from wf have inj: "inj_on id_col (set (refreshtokens d))"
    and below: "id_col r < refreshtokens_id_seq d"
    using r(1) by (simp_all add: wf_db_def distinct_map)
  have "stays_revoked (id_col r) d"
    unfolding stays_revoked_def
  proof (intro conjI ballI impI)
    fix x assume "x \<in> set (refreshtokens d)" "id_col x = id_col r"
    with inj r(1) have "x = r" by (auto dest: inj_onD)
    with r(2) show "is_revoked x" by simp
  qed (rule below)
  from stays_revoked_run [OF this, of vp ops]
  have after: "\<forall>x \<in> set (refreshtokens (run vp ops d)). id_col x = id_col r \<longrightarrow> is_revoked x"
    by (simp add: stays_revoked_def)
  have "id_col x \<noteq> id_col r" if "validate_refresh_token now tok (run vp ops d) = Some x" for now tok x
    using validate_refresh_token_Some [OF that] after by auto
  moreover have "\<forall>x \<in> set (get_active_session_tokens now uid (run vp ops d)). id_col x \<noteq> id_col r"
    for now uid
    using after by (auto simp: set_get_active_session_tokens is_active_of_def)
  ultimately show ?thesis using after by blast
qed

theorem revocation_monotonic_witness:
  "wf_db db_rotated
   \<and> hd (refreshtokens db_rotated) \<in> set (refreshtokens db_rotated)
   \<and> is_revoked (hd (refreshtokens db_rotated))
   \<and> map (\<lambda>r. (id_col r, token r)) (refreshtokens (run verify0 ops_after_rotation db_rotated))
       = [(1, ''R1''), (2, ''R2''), (3, ''R4''), (4, ''R7'')]
   \<and> is_revoked (hd (refreshtokens (run verify0 ops_after_rotation db_rotated)))
   \<and> validate_refresh_token 8000 ''R1'' (run verify0 ops_after_rotation db_rotated) = None
   \<and> map_option id_col (validate_refresh_token 8000 ''R7'' (run verify0 ops_after_rotation db_rotated))
       = Some 4"
proof -
  let ?d = "run verify0 ops_after_rotation db_rotated"
  have wf: "wf_db db_rotated"
    by (simp add: wf_db_def example_defs)
  have r: "hd (refreshtokens db_rotated) \<in> set (refreshtokens db_rotated)"
      "is_revoked (hd (refreshtokens db_rotated))" "id_col (hd (refreshtokens db_rotated)) = 1"
    by (simp_all add: example_defs)
  have rows: "map (\<lambda>r. (id_col r, token r)) (refreshtokens ?d)
                = [(1, ''R1''), (2, ''R2''), (3, ''R4''), (4, ''R7'')]"
    by (simp add: run_def ops_after_rotation_def engine_defs example_defs Let_def)
  then have ne: "refreshtokens ?d \<noteq> []" by auto
  from rows have "hd (map (\<lambda>r. (id_col r, token r)) (refreshtokens ?d)) = (1, ''R1'')"
    by simp
  with ne have first: "id_col (hd (refreshtokens ?d)) = 1" "token (hd (refreshtokens ?d)) = ''R1''"
    by (simp_all add: hd_map)
  from ne have mem: "hd (refreshtokens ?d) \<in> set (refreshtokens ?d)" by simp
  note mono = revocation_monotonic [OF wf r(1) r(2), of verify0 ops_after_rotation]
  from mono mem first(1) r(3) have rev: "is_revoked (hd (refreshtokens ?d))"
    by simp
  have v1: "validate_refresh_token 8000 ''R1'' ?d = None"
    by (simp add: run_def ops_after_rotation_def engine_defs example_defs Let_def)
  have v7: "map_option id_col (validate_refresh_token 8000 ''R7'' ?d) = Some 4"
    by (simp add: run_def ops_after_rotation_def engine_defs example_defs Let_def)
  from wf r(1) r(2) rows rev v1 v7 show ?thesis by blast
qed

subsection \<open>The constraints hold in every reachable state\<close>

lemma wf_db_alt:
  "wf_db d \<longleftrightarrow>
     distinct (map id_col (refreshtokens d)) \<and> distinct (map token (refreshtokens d))
     \<and> (\<forall>i \<in> set (map id_col (refreshtokens d)). i < refreshtokens_id_seq d)"
  by (simp add: wf_db_def)

lemma wf_db_revoke_where:
  "wf_db d \<Longrightarrow> wf_db (d\<lparr>refreshtokens := revoke_where p now (refreshtokens d)\<rparr>)"
  unfolding wf_db_alt by simp

lemma wf_db_filter:
  "wf_db d \<Longrightarrow> wf_db (d\<lparr>refreshtokens := filter q (refreshtokens d)\<rparr>)"
  unfolding wf_db_def by (simp add: distinct_map_filter)

lemma wf_db_store:
  assumes "wf_db d"
  shows "wf_db (snd (store_refresh_token cfg now uid tok req rsd d))"
proof (cases "tok \<in> set (map token (refreshtokens d)) \<or> uid \<notin> set (map id_col (users d))")
  case True
  then have "snd (store_refresh_token cfg now uid tok req rsd d)
               = d\<lparr>refreshtokens_id_seq := refreshtokens_id_seq d + 1\<rparr>"
    by (simp add: store_refresh_token_def Let_def)
  with assms show ?thesis
    unfolding wf_db_alt by force
next
  case False
  let ?d' = "snd (store_refresh_token cfg now uid tok req rsd d)"
  from False have ids: "map id_col (refreshtokens ?d') = map id_col (refreshtokens d) @ [refreshtokens_id_seq d]"
    and toks: "map token (refreshtokens ?d') = map token (refreshtokens d) @ [tok]"
    and seq: "refreshtokens_id_seq ?d' = refreshtokens_id_seq d + 1"
    by (simp_all add: store_refresh_token_def Let_def)
  from assms have fresh: "refreshtokens_id_seq d \<notin> set (map id_col (refreshtokens d))"
    unfolding wf_db_alt by auto
  from False have new: "tok \<notin> set (map token (refreshtokens d))" by simp
  from assms fresh new show ?thesis
    unfolding wf_db_alt ids toks seq by force
qed

lemma wf_db_exec: "wf_db d \<Longrightarrow> wf_db (exec vp operation d)"
proof (cases operation)
  case (Store cfg now uid tok req rsd)
  assume "wf_db d"
  with Store show ?thesis by (simp add: wf_db_store)
next
  case (Login cfg now req eu pw j r)
  assume "wf_db d"
  with Login show ?thesis
    by (simp add: auth_user_def set_auth_tokens_snd wf_db_store split: sum.splits option.splits)
next
  case (Refresh cfg now req cookie body j r)
  assume "wf_db d"
  with Refresh show ?thesis
    by (simp add: refresh_tokens_def set_auth_tokens_snd wf_db_store revoke_refresh_token_def
          Let_def wf_db_revoke_where split: sum.splits option.splits)
next
  case (Logout now u cookie all_devices)
  assume "wf_db d"
  with Logout show ?thesis
    by (simp add: logout_user_def revoke_all_user_refresh_tokens_def revoke_refresh_token_def
          Let_def wf_db_revoke_where split: option.splits)
next
  case (CleanupRoute now u)
  assume "wf_db d"
  with CleanupRoute show ?thesis
    by (simp add: cleanup_route_snd cleanup_expired_tokens_def Let_def wf_db_filter)
next
  case (LimitSessions now m u)
  assume "wf_db d"
  with LimitSessions show ?thesis
    by (simp add: limit_sessions_snd limit_active_sessions_def Let_def wf_db_revoke_where)
qed (simp_all add: revoke_refresh_token_def revoke_all_user_refresh_tokens_def
       revoke_session_by_id_def limit_active_sessions_def cleanup_expired_tokens_def
       revoke_session_snd list_active_sessions_def Let_def wf_db_revoke_where wf_db_filter)

lemma wf_db_run: "wf_db d \<Longrightarrow> wf_db (run vp ops d)"
  unfolding run_def by (induction ops arbitrary: d) (simp_all add: wf_db_exec)

lemma wf_db_init: "wf_db db_init"
  by (simp add: wf_db_def db_init_def)

end
